theory Spec2Isabelle
  imports
    Complex_Main
    "HOL-Library.AList"
    "HOL-Library.Char_ord"
    "HOL-Library.List_Lexorder"
    "HOL-Library.Log_Nat"
begin

section \<open>The forged operator of entanglement forging\<close>

text \<open>
  A shallow embedding of \<^verbatim>\<open>entanglement_forging/core/forged_operator.py\<close>: the class
  \<^verbatim>\<open>ForgedOperator\<close>, its constructor and its method \<^verbatim>\<open>construct\<close>.

  The method is modelled twice. In \<open>construct\<close> the weights are complex numbers and the
  matrix entries are reals, with exact arithmetic; this model carries the results on the
  labels, the shape of the matrices and the place of each contribution. In
  \<open>construct_arith\<close> the multiplication and the addition are parameters, and
  \<open>float64_arith\<close> supplies the arithmetic of numpy, IEEE 754 binary64 with rounding to
  nearest; this model carries the results on the values that the program stores. At the
  exact arithmetic \<open>construct_arith\<close> is \<open>construct\<close>.
\<close>

subsection \<open>Exceptions\<close>

text \<open>
  The exceptions the source can raise: a failed \<^verbatim>\<open>assert\<close>, an index out of range, a
  missing dictionary key. \<open>Other\<close> stands for an exception of any other class, raised
  inside a function the class calls; it carries the name of its class.
\<close>

datatype error = AssertionError | IndexError | KeyError | Other string

fun exception_name :: "error \<Rightarrow> string" where
  "exception_name AssertionError = ''AssertionError''"
| "exception_name IndexError = ''IndexError''"
| "exception_name KeyError = ''KeyError''"
| "exception_name (Other name) = name"

subsection \<open>Data\<close>

text \<open>
  An operator is read only through \<^verbatim>\<open>op.primitive.to_list()\<close>, a list of pairs of a Pauli
  label and a complex weight. A Python dictionary that is iterated is an association list
  in insertion order; storing under a key that is present keeps the key's position
  (\<^const>\<open>AList.update\<close>).
\<close>

type_synonym pauli_op = "(string \<times> complex) list"

type_synonym pauli_dict = "(string \<times> complex) list"

type_synonym matrix = "real list list"

record 'arr QMolecule =
  mo_coeff :: 'arr
  hcore :: 'arr
  eri :: 'arr
  num_alpha :: int
  num_beta :: int

record ('arr, 'otr) ForgedOperator =
  qmolecule :: "'arr QMolecule"
  all_orbitals_to_reduce :: "int list"
  orbitals_to_reduce :: 'otr
  epsilon_cholesky :: real
  h_1_op :: pauli_op
  h_chol_ops :: "pauli_op list option"

text \<open>
  The functions the constructor calls live in modules that are not part of the verified
  sources (\<^verbatim>\<open>orbitals_to_reduce\<close> and \<^verbatim>\<open>cholesky_hamiltonian\<close>); they are parameters of
  the model, and each of them may raise. Of the five results of
  \<^verbatim>\<open>get_fermionic_ops_with_cholesky\<close> the constructor keeps the first two.
\<close>

record ('arr, 'otr) collaborators =
  OrbitalsToReduce :: "int list \<Rightarrow> 'arr QMolecule \<Rightarrow> error + 'otr"
  occupied :: "'otr \<Rightarrow> error + int list"
  virtual :: "'otr \<Rightarrow> error + int list"
  get_fermionic_ops_with_cholesky ::
    "'arr \<Rightarrow> 'arr \<Rightarrow> 'arr \<Rightarrow> string \<Rightarrow> bool \<Rightarrow> int list \<Rightarrow> int list \<Rightarrow> real
      \<Rightarrow> error + (pauli_op \<times> pauli_op list option)"

subsection \<open>The constructor\<close>

text \<open>
  \<^verbatim>\<open>ForgedOperator.__init__\<close>: the fields are set, the decomposition is computed, and the
  \<^verbatim>\<open>assert\<close> on the electron counts is the last statement.
\<close>

definition ForgedOperator_init ::
  "('arr, 'otr) collaborators \<Rightarrow> 'arr QMolecule \<Rightarrow> int list
    \<Rightarrow> error + ('arr, 'otr) ForgedOperator" where
  "ForgedOperator_init ext qmol all_to_reduce =
     (case OrbitalsToReduce ext all_to_reduce qmol of
        Inl e \<Rightarrow> Inl e
      | Inr otr \<Rightarrow>
     (case occupied ext otr of
        Inl e \<Rightarrow> Inl e
      | Inr occ \<Rightarrow>
     (case virtual ext otr of
        Inl e \<Rightarrow> Inl e
      | Inr virt \<Rightarrow>
     (case get_fermionic_ops_with_cholesky ext (mo_coeff qmol) (hcore qmol) (eri qmol)
             ''H'' True occ virt (1 / 10 ^ 10) of
        Inl e \<Rightarrow> Inl e
      | Inr (h_1, h_chol) \<Rightarrow>
          if num_alpha qmol = num_beta qmol
          then Inr \<lparr> qmolecule = qmol, all_orbitals_to_reduce = all_to_reduce,
                     orbitals_to_reduce = otr, epsilon_cholesky = 1 / 10 ^ 10,
                     h_1_op = h_1, h_chol_ops = h_chol \<rparr>
          else Inl AssertionError))))"

subsection \<open>Collecting the Pauli labels\<close>

text \<open>
  The dictionary comprehension of lines 92 to 95: the terms of \<^verbatim>\<open>to_list()\<close> whose weight
  has a positive modulus, stored in order; a label that occurs again overwrites its weight.
\<close>

definition abs_positive :: "complex \<Rightarrow> bool" where
  "abs_positive weight \<longleftrightarrow> cmod weight > 0"

definition nonzero_terms :: "pauli_op \<Rightarrow> pauli_dict" where
  "nonzero_terms op =
     fold (\<lambda>(label, weight) d. AList.update label weight d)
       (filter (\<lambda>(label, weight). abs_positive weight) op) []"

text \<open>Lines 82 to 87: the factors, none when \<^verbatim>\<open>h_chol_ops\<close> is \<^verbatim>\<open>None\<close>.\<close>

definition cholesky_ops :: "('arr, 'otr) ForgedOperator \<Rightarrow> pauli_op list" where
  "cholesky_ops self = (case h_chol_ops self of None \<Rightarrow> [] | Some ops \<Rightarrow> ops)"

text \<open>
  Lines 92 to 97: the dictionary of the one-body operator first, kept even when empty,
  then the dictionaries of the factors that are not empty.
\<close>

definition paulis_each_op :: "('arr, 'otr) ForgedOperator \<Rightarrow> pauli_dict list" where
  "paulis_each_op self =
     nonzero_terms (h_1_op self)
       # filter (\<lambda>p. p \<noteq> []) (map nonzero_terms (cholesky_ops self))"

text \<open>
  The loop of lines 98 to 102 over \<^verbatim>\<open>enumerate(paulis_each_op)\<close>. Its state is the two
  sets and the variable \<^verbatim>\<open>pnames\<close>, which is read after the loop. The loop runs at least
  once, so the initial value of \<^verbatim>\<open>pnames\<close> is never read.
\<close>

fun collect_loop ::
  "(nat \<times> pauli_dict) list \<Rightarrow> string set \<times> string set \<times> string list
    \<Rightarrow> string set \<times> string set \<times> string list" where
  "collect_loop [] st = st"
| "collect_loop ((op_idx, paulis_this_op) # rest) (tensor_paulis, superpos_paulis, pnames) =
     (let pnames' = map fst paulis_this_op;
          tensor_paulis' = tensor_paulis \<union> set pnames';
          superpos_paulis' =
            (if op_idx > 0 then superpos_paulis \<union> set pnames' else superpos_paulis)
      in collect_loop rest (tensor_paulis', superpos_paulis', pnames'))"

text \<open>
  Lines 90 to 105: the two label sets and the identity string. \<^verbatim>\<open>pnames[0]\<close> raises
  \<^verbatim>\<open>IndexError\<close> when the dictionary processed last is empty.
\<close>

definition collect_paulis ::
  "('arr, 'otr) ForgedOperator \<Rightarrow> error + (string set \<times> string set \<times> string)" where
  "collect_paulis self =
     (case collect_loop (enumerate 0 (paulis_each_op self)) ({}, {}, []) of
        (tensor_paulis, superpos_paulis, pnames) \<Rightarrow>
          (case pnames of
             [] \<Rightarrow> Inl IndexError
           | pname # _ \<Rightarrow>
               (let identity_string = replicate (length pname) CHR ''I''
                in Inr (insert identity_string tensor_paulis, superpos_paulis,
                        identity_string))))"

subsection \<open>The weight matrices\<close>

definition np_zeros :: "nat \<Rightarrow> nat \<Rightarrow> matrix" where
  "np_zeros m n = replicate m (replicate n 0)"

text \<open>\<^verbatim>\<open>w[i, j] += v\<close>, which raises \<^verbatim>\<open>IndexError\<close> out of range.\<close>

definition add_at :: "matrix \<Rightarrow> nat \<Rightarrow> nat \<Rightarrow> real \<Rightarrow> error + matrix" where
  "add_at w i j v =
     (if i < length w \<and> j < length (w ! i)
      then Inr (w[i := (w ! i)[j := w ! i ! j + v]])
      else Inl IndexError)"

text \<open>\<^verbatim>\<open>d[key]\<close>, which raises \<^verbatim>\<open>KeyError\<close> for a missing key.\<close>

definition getitem :: "(string \<rightharpoonup> nat) \<Rightarrow> string \<Rightarrow> error + nat" where
  "getitem d key = (case d key of None \<Rightarrow> Inl KeyError | Some v \<Rightarrow> Inr v)"

text \<open>
  The comprehension \<^verbatim>\<open>{pname: idx for idx, pname in enumerate(paulis)}\<close> of lines 110
  to 113.
\<close>

fun enumerate_dict :: "nat \<Rightarrow> string list \<Rightarrow> (string \<rightharpoonup> nat) \<Rightarrow> (string \<rightharpoonup> nat)" where
  "enumerate_dict idx [] d = d"
| "enumerate_dict idx (pname # rest) d = enumerate_dict (Suc idx) rest (d(pname \<mapsto> idx))"

definition pauli_ordering :: "string list \<Rightarrow> (string \<rightharpoonup> nat)" where
  "pauli_ordering paulis = enumerate_dict 0 paulis Map.empty"

text \<open>The loop of lines 118 to 121 over the items of the one-body dictionary.\<close>

fun one_body_loop ::
  "(string \<rightharpoonup> nat) \<Rightarrow> nat \<Rightarrow> pauli_dict \<Rightarrow> matrix \<Rightarrow> error + matrix" where
  "one_body_loop tensor_ord identity_idx [] w_ij = Inr w_ij"
| "one_body_loop tensor_ord identity_idx ((pname_i, w_i) # rest) w_ij =
     (case getitem tensor_ord pname_i of
        Inl e \<Rightarrow> Inl e
      | Inr i \<Rightarrow>
     (case add_at w_ij i identity_idx (Re w_i) of
        Inl e \<Rightarrow> Inl e
      | Inr w_ij' \<Rightarrow>
     (case add_at w_ij' identity_idx i (Re w_i) of
        Inl e \<Rightarrow> Inl e
      | Inr w_ij'' \<Rightarrow> one_body_loop tensor_ord identity_idx rest w_ij'')))"

text \<open>The innermost loop, lines 127 to 131, for a fixed first term.\<close>

fun pair_loop ::
  "(string \<rightharpoonup> nat) \<Rightarrow> (string \<rightharpoonup> nat) \<Rightarrow> nat \<Rightarrow> nat \<Rightarrow> complex \<Rightarrow> pauli_dict
    \<Rightarrow> matrix \<times> matrix \<Rightarrow> error + matrix \<times> matrix" where
  "pair_loop tensor_ord superpos_ord i a w_1 [] ws = Inr ws"
| "pair_loop tensor_ord superpos_ord i a w_1 ((pname_2, w_2) # rest) (w_ij, w_ab) =
     (case getitem tensor_ord pname_2 of
        Inl e \<Rightarrow> Inl e
      | Inr j \<Rightarrow>
     (case getitem superpos_ord pname_2 of
        Inl e \<Rightarrow> Inl e
      | Inr b \<Rightarrow>
     (case add_at w_ij i j (Re (w_1 * w_2)) of
        Inl e \<Rightarrow> Inl e
      | Inr w_ij' \<Rightarrow>
     (case add_at w_ab a b (Re (w_1 * w_2)) of
        Inl e \<Rightarrow> Inl e
      | Inr w_ab' \<Rightarrow> pair_loop tensor_ord superpos_ord i a w_1 rest (w_ij', w_ab')))))"

text \<open>
  The loop of lines 124 to 131 over the first term; \<open>gamma\<close> is the whole dictionary of
  the factor, which the inner loop iterates again from its start.
\<close>

fun gamma_loop ::
  "(string \<rightharpoonup> nat) \<Rightarrow> (string \<rightharpoonup> nat) \<Rightarrow> pauli_dict \<Rightarrow> pauli_dict
    \<Rightarrow> matrix \<times> matrix \<Rightarrow> error + matrix \<times> matrix" where
  "gamma_loop tensor_ord superpos_ord gamma [] ws = Inr ws"
| "gamma_loop tensor_ord superpos_ord gamma ((pname_1, w_1) # rest) ws =
     (case getitem tensor_ord pname_1 of
        Inl e \<Rightarrow> Inl e
      | Inr i \<Rightarrow>
     (case getitem superpos_ord pname_1 of
        Inl e \<Rightarrow> Inl e
      | Inr a \<Rightarrow>
     (case pair_loop tensor_ord superpos_ord i a w_1 gamma ws of
        Inl e \<Rightarrow> Inl e
      | Inr ws' \<Rightarrow> gamma_loop tensor_ord superpos_ord gamma rest ws')))"

text \<open>The loop of line 123 over the factors.\<close>

fun cholesky_loop ::
  "(string \<rightharpoonup> nat) \<Rightarrow> (string \<rightharpoonup> nat) \<Rightarrow> pauli_dict list
    \<Rightarrow> matrix \<times> matrix \<Rightarrow> error + matrix \<times> matrix" where
  "cholesky_loop tensor_ord superpos_ord [] ws = Inr ws"
| "cholesky_loop tensor_ord superpos_ord (paulis_this_gamma # rest) ws =
     (case gamma_loop tensor_ord superpos_ord paulis_this_gamma paulis_this_gamma ws of
        Inl e \<Rightarrow> Inl e
      | Inr ws' \<Rightarrow> cholesky_loop tensor_ord superpos_ord rest ws')"

text \<open>Lines 110 to 131: the orderings, the zero matrices and the three loops.\<close>

definition fill_weights ::
  "pauli_dict list \<Rightarrow> string list \<Rightarrow> string list \<Rightarrow> string \<Rightarrow> error + matrix \<times> matrix" where
  "fill_weights each_op tensor_paulis superpos_paulis identity_string =
     (let tensor_ord = pauli_ordering tensor_paulis;
          superpos_ord = pauli_ordering superpos_paulis;
          w_ij = np_zeros (length tensor_paulis) (length tensor_paulis);
          w_ab = np_zeros (length superpos_paulis) (length superpos_paulis)
      in (case getitem tensor_ord identity_string of
            Inl e \<Rightarrow> Inl e
          | Inr identity_idx \<Rightarrow>
         (case one_body_loop tensor_ord identity_idx (hd each_op) w_ij of
            Inl e \<Rightarrow> Inl e
          | Inr w_ij' \<Rightarrow> cholesky_loop tensor_ord superpos_ord (tl each_op) (w_ij', w_ab))))"

subsection \<open>The method construct\<close>

text \<open>
  \<^verbatim>\<open>ForgedOperator.construct\<close>. The state is the instance and the logging sink;
  \<^verbatim>\<open>Log.log\<close>, of a module outside the verified sources, is a parameter that takes the
  message, the count and the sink to the new sink. The method returns the four results or
  the exception, and the state it leaves.
\<close>

type_synonym forged_weights = "string list \<times> string list \<times> matrix \<times> matrix"

definition construct ::
  "(string \<Rightarrow> nat \<Rightarrow> 'log \<Rightarrow> 'log) \<Rightarrow> ('arr, 'otr) ForgedOperator \<times> 'log
    \<Rightarrow> (error + forged_weights) \<times> ('arr, 'otr) ForgedOperator \<times> 'log" where
  "construct Log_log st =
     (case st of (self, sink) \<Rightarrow>
       (case collect_paulis self of
          Inl e \<Rightarrow> (Inl e, self, sink)
        | Inr (tensor_set, superpos_set, identity_string) \<Rightarrow>
            (let sink1 = Log_log ''num paulis for tensor states:'' (card tensor_set) sink;
                 sink2 = Log_log ''num paulis for superpos states:'' (card superpos_set) sink1;
                 tensor_paulis = sorted_list_of_set tensor_set;
                 superpos_paulis = sorted_list_of_set superpos_set
             in (case fill_weights (paulis_each_op self) tensor_paulis superpos_paulis
                        identity_string of
                   Inl e \<Rightarrow> (Inl e, self, sink2)
                 | Inr (w_ij, w_ab) \<Rightarrow>
                     (Inr (tensor_paulis, superpos_paulis, w_ij, w_ab), self, sink2)))))"

subsection \<open>Floating-point arithmetic\<close>

text \<open>
  numpy stores the weights and the matrix entries as IEEE 754 binary64 numbers (doubles)
  and rounds the result of every operation to the nearest double, ties to the double with
  an even significand. A finite double is the real number it denotes. Doubles around \<open>x\<close>
  are spaced by \<open>2 ^ e\<close> where \<open>e\<close> is the exponent of \<open>x\<close> minus 52, and at least
  \<open>- 1074\<close> (the subnormal range). Overflow to infinity, above \<open>2 ^ 1024\<close>, is not
  modelled.
\<close>

text \<open>The integer part of the binary logarithm of a positive real.\<close>

definition floor_log2 :: "real \<Rightarrow> int" where
  "floor_log2 x =
     (if 1 \<le> x then int (floorlog 2 (nat \<lfloor>x\<rfloor>)) - 1
      else - int (floorlog 2 (nat (\<lceil>1 / x\<rceil> - 1))))"

definition round_half_even :: "real \<Rightarrow> int" where
  "round_half_even x =
     (let f = \<lfloor>x\<rfloor>; r = x - of_int f
      in if r < 1 / 2 then f
         else if 1 / 2 < r then f + 1
         else if even f then f else f + 1)"

definition float64_round :: "real \<Rightarrow> real" where
  "float64_round x =
     (if x = 0 then 0
      else (let e = max (floor_log2 \<bar>x\<bar> - 52) (- 1074)
            in of_int (round_half_even (x / 2 powi e)) * 2 powi e))"

text \<open>
  The arithmetic that the loops use: \<^verbatim>\<open>np.real(w_1 * w_2)\<close> and the addition of \<^verbatim>\<open>+=\<close>.
  \<^verbatim>\<open>np.real(w_i)\<close> of a single weight takes its real part and rounds nothing.
\<close>

record arithmetic =
  np_real_mult :: "complex \<Rightarrow> complex \<Rightarrow> real"
  np_add :: "real \<Rightarrow> real \<Rightarrow> real"

definition exact_arith :: arithmetic where
  "exact_arith = \<lparr> np_real_mult = (\<lambda>w_1 w_2. Re (w_1 * w_2)), np_add = (\<lambda>a b. a + b) \<rparr>"

text \<open>
  The product of two complex doubles has the real part
  \<open>Re w_1 * Re w_2 - Im w_1 * Im w_2\<close>, each operation rounded.
\<close>

definition float64_arith :: arithmetic where
  "float64_arith =
     \<lparr> np_real_mult = (\<lambda>w_1 w_2.
         float64_round (float64_round (Re w_1 * Re w_2) - float64_round (Im w_1 * Im w_2))),
       np_add = (\<lambda>a b. float64_round (a + b)) \<rparr>"

subsection \<open>The method with the arithmetic as a parameter\<close>

text \<open>
  The same statements as above, lines 110 to 131 and the method, with the operations of
  the arithmetic in place of the exact ones.
\<close>

definition add_at_arith ::
  "arithmetic \<Rightarrow> matrix \<Rightarrow> nat \<Rightarrow> nat \<Rightarrow> real \<Rightarrow> error + matrix" where
  "add_at_arith ar w i j v =
     (if i < length w \<and> j < length (w ! i)
      then Inr (w[i := (w ! i)[j := np_add ar (w ! i ! j) v]])
      else Inl IndexError)"

fun one_body_loop_arith ::
  "arithmetic \<Rightarrow> (string \<rightharpoonup> nat) \<Rightarrow> nat \<Rightarrow> pauli_dict \<Rightarrow> matrix \<Rightarrow> error + matrix" where
  "one_body_loop_arith ar tensor_ord identity_idx [] w_ij = Inr w_ij"
| "one_body_loop_arith ar tensor_ord identity_idx ((pname_i, w_i) # rest) w_ij =
     (case getitem tensor_ord pname_i of
        Inl e \<Rightarrow> Inl e
      | Inr i \<Rightarrow>
     (case add_at_arith ar w_ij i identity_idx (Re w_i) of
        Inl e \<Rightarrow> Inl e
      | Inr w_ij' \<Rightarrow>
     (case add_at_arith ar w_ij' identity_idx i (Re w_i) of
        Inl e \<Rightarrow> Inl e
      | Inr w_ij'' \<Rightarrow> one_body_loop_arith ar tensor_ord identity_idx rest w_ij'')))"

fun pair_loop_arith ::
  "arithmetic \<Rightarrow> (string \<rightharpoonup> nat) \<Rightarrow> (string \<rightharpoonup> nat) \<Rightarrow> nat \<Rightarrow> nat \<Rightarrow> complex
    \<Rightarrow> pauli_dict \<Rightarrow> matrix \<times> matrix \<Rightarrow> error + matrix \<times> matrix" where
  "pair_loop_arith ar tensor_ord superpos_ord i a w_1 [] ws = Inr ws"
| "pair_loop_arith ar tensor_ord superpos_ord i a w_1 ((pname_2, w_2) # rest) (w_ij, w_ab) =
     (case getitem tensor_ord pname_2 of
        Inl e \<Rightarrow> Inl e
      | Inr j \<Rightarrow>
     (case getitem superpos_ord pname_2 of
        Inl e \<Rightarrow> Inl e
      | Inr b \<Rightarrow>
     (case add_at_arith ar w_ij i j (np_real_mult ar w_1 w_2) of
        Inl e \<Rightarrow> Inl e
      | Inr w_ij' \<Rightarrow>
     (case add_at_arith ar w_ab a b (np_real_mult ar w_1 w_2) of
        Inl e \<Rightarrow> Inl e
      | Inr w_ab' \<Rightarrow>
          pair_loop_arith ar tensor_ord superpos_ord i a w_1 rest (w_ij', w_ab')))))"

fun gamma_loop_arith ::
  "arithmetic \<Rightarrow> (string \<rightharpoonup> nat) \<Rightarrow> (string \<rightharpoonup> nat) \<Rightarrow> pauli_dict \<Rightarrow> pauli_dict
    \<Rightarrow> matrix \<times> matrix \<Rightarrow> error + matrix \<times> matrix" where
  "gamma_loop_arith ar tensor_ord superpos_ord gamma [] ws = Inr ws"
| "gamma_loop_arith ar tensor_ord superpos_ord gamma ((pname_1, w_1) # rest) ws =
     (case getitem tensor_ord pname_1 of
        Inl e \<Rightarrow> Inl e
      | Inr i \<Rightarrow>
     (case getitem superpos_ord pname_1 of
        Inl e \<Rightarrow> Inl e
      | Inr a \<Rightarrow>
     (case pair_loop_arith ar tensor_ord superpos_ord i a w_1 gamma ws of
        Inl e \<Rightarrow> Inl e
      | Inr ws' \<Rightarrow> gamma_loop_arith ar tensor_ord superpos_ord gamma rest ws')))"

fun cholesky_loop_arith ::
  "arithmetic \<Rightarrow> (string \<rightharpoonup> nat) \<Rightarrow> (string \<rightharpoonup> nat) \<Rightarrow> pauli_dict list
    \<Rightarrow> matrix \<times> matrix \<Rightarrow> error + matrix \<times> matrix" where
  "cholesky_loop_arith ar tensor_ord superpos_ord [] ws = Inr ws"
| "cholesky_loop_arith ar tensor_ord superpos_ord (paulis_this_gamma # rest) ws =
     (case gamma_loop_arith ar tensor_ord superpos_ord paulis_this_gamma paulis_this_gamma ws of
        Inl e \<Rightarrow> Inl e
      | Inr ws' \<Rightarrow> cholesky_loop_arith ar tensor_ord superpos_ord rest ws')"

definition fill_weights_arith ::
  "arithmetic \<Rightarrow> pauli_dict list \<Rightarrow> string list \<Rightarrow> string list \<Rightarrow> string
    \<Rightarrow> error + matrix \<times> matrix" where
  "fill_weights_arith ar each_op tensor_paulis superpos_paulis identity_string =
     (let tensor_ord = pauli_ordering tensor_paulis;
          superpos_ord = pauli_ordering superpos_paulis;
          w_ij = np_zeros (length tensor_paulis) (length tensor_paulis);
          w_ab = np_zeros (length superpos_paulis) (length superpos_paulis)
      in (case getitem tensor_ord identity_string of
            Inl e \<Rightarrow> Inl e
          | Inr identity_idx \<Rightarrow>
         (case one_body_loop_arith ar tensor_ord identity_idx (hd each_op) w_ij of
            Inl e \<Rightarrow> Inl e
          | Inr w_ij' \<Rightarrow>
              cholesky_loop_arith ar tensor_ord superpos_ord (tl each_op) (w_ij', w_ab))))"

definition construct_arith ::
  "arithmetic \<Rightarrow> (string \<Rightarrow> nat \<Rightarrow> 'log \<Rightarrow> 'log) \<Rightarrow> ('arr, 'otr) ForgedOperator \<times> 'log
    \<Rightarrow> (error + forged_weights) \<times> ('arr, 'otr) ForgedOperator \<times> 'log" where
  "construct_arith ar Log_log st =
     (case st of (self, sink) \<Rightarrow>
       (case collect_paulis self of
          Inl e \<Rightarrow> (Inl e, self, sink)
        | Inr (tensor_set, superpos_set, identity_string) \<Rightarrow>
            (let sink1 = Log_log ''num paulis for tensor states:'' (card tensor_set) sink;
                 sink2 = Log_log ''num paulis for superpos states:'' (card superpos_set) sink1;
                 tensor_paulis = sorted_list_of_set tensor_set;
                 superpos_paulis = sorted_list_of_set superpos_set
             in (case fill_weights_arith ar (paulis_each_op self) tensor_paulis
                        superpos_paulis identity_string of
                   Inl e \<Rightarrow> (Inl e, self, sink2)
                 | Inr (w_ij, w_ab) \<Rightarrow>
                     (Inr (tensor_paulis, superpos_paulis, w_ij, w_ab), self, sink2)))))"

subsection \<open>Notions for stating the results\<close>

text \<open>A matrix with \<open>n\<close> rows of \<open>n\<close> entries each.\<close>

definition is_square :: "nat \<Rightarrow> matrix \<Rightarrow> bool" where
  "is_square n w \<longleftrightarrow> length w = n \<and> (\<forall>row \<in> set w. length row = n)"

text \<open>Some operator, the one-body operator or a factor, has a term of nonzero weight.\<close>

definition has_nonzero_term :: "('arr, 'otr) ForgedOperator \<Rightarrow> bool" where
  "has_nonzero_term self \<longleftrightarrow>
     (\<exists>op \<in> set (h_1_op self # cholesky_ops self). \<exists>(label, weight) \<in> set op. weight \<noteq> 0)"

text \<open>
  The operators act on \<open>n\<close> qubits: every label of every operator has \<open>n\<close> letters.
\<close>

definition labels_have_length :: "nat \<Rightarrow> ('arr, 'otr) ForgedOperator \<Rightarrow> bool" where
  "labels_have_length n self \<longleftrightarrow>
     (\<forall>op \<in> set (h_1_op self # cholesky_ops self). \<forall>(label, weight) \<in> set op. length label = n)"

text \<open>
  What the spec says \<^verbatim>\<open>construct\<close> computes, written without loops or mutation, to be
  compared with the method: the identity label, the two label sets, and the entries of
  the two matrices as sums over the terms.
\<close>

definition spec_identity :: "('arr, 'otr) ForgedOperator \<Rightarrow> string" where
  "spec_identity self =
     replicate (length (fst (hd (last (paulis_each_op self))))) CHR ''I''"

definition spec_tensor_labels :: "('arr, 'otr) ForgedOperator \<Rightarrow> string set" where
  "spec_tensor_labels self =
     insert (spec_identity self) (\<Union>d \<in> set (paulis_each_op self). fst ` set d)"

definition spec_superpos_labels :: "('arr, 'otr) ForgedOperator \<Rightarrow> string set" where
  "spec_superpos_labels self = (\<Union>d \<in> set (tl (paulis_each_op self)). fst ` set d)"

definition spec_one_body :: "string list \<Rightarrow> string \<Rightarrow> pauli_dict \<Rightarrow> nat \<Rightarrow> nat \<Rightarrow> real" where
  "spec_one_body paulis identity_string d a b =
     (\<Sum>(p, w) \<leftarrow> d.
        (if paulis ! a = p \<and> paulis ! b = identity_string then Re w else 0)
      + (if paulis ! a = identity_string \<and> paulis ! b = p then Re w else 0))"

definition spec_two_body :: "string list \<Rightarrow> pauli_dict list \<Rightarrow> nat \<Rightarrow> nat \<Rightarrow> real" where
  "spec_two_body paulis ds a b =
     (\<Sum>gamma \<leftarrow> ds. \<Sum>(p_1, w_1) \<leftarrow> gamma. \<Sum>(p_2, w_2) \<leftarrow> gamma.
        if paulis ! a = p_1 \<and> paulis ! b = p_2 then Re (w_1 * w_2) else 0)"

definition spec_w_ij :: "('arr, 'otr) ForgedOperator \<Rightarrow> matrix" where
  "spec_w_ij self =
     (let paulis = sorted_list_of_set (spec_tensor_labels self)
      in map (\<lambda>a. map (\<lambda>b.
                spec_one_body paulis (spec_identity self) (hd (paulis_each_op self)) a b
              + spec_two_body paulis (tl (paulis_each_op self)) a b)
              [0..<length paulis])
           [0..<length paulis])"

definition spec_w_ab :: "('arr, 'otr) ForgedOperator \<Rightarrow> matrix" where
  "spec_w_ab self =
     (let paulis = sorted_list_of_set (spec_superpos_labels self)
      in map (\<lambda>a. map (\<lambda>b. spec_two_body paulis (tl (paulis_each_op self)) a b)
              [0..<length paulis])
           [0..<length paulis])"

subsection \<open>Concrete inputs\<close>

text \<open>
  Modelled from the spec: the logging sink, which "accepts key-value informational
  messages"; the module \<^verbatim>\<open>utils.log\<close> is not among the verified sources. This sink keeps
  the records in the order of the calls.
\<close>

definition record_log :: "string \<Rightarrow> nat \<Rightarrow> (string \<times> nat) list \<Rightarrow> (string \<times> nat) list" where
  "record_log message count sink = sink @ [(message, count)]"

text \<open>Collaborators that return at once, with a fixed decomposition.\<close>

definition toy_collaborators :: "(unit, unit) collaborators" where
  "toy_collaborators =
     \<lparr> OrbitalsToReduce = (\<lambda>all_to_reduce qmol. Inr ()),
       occupied = (\<lambda>otr. Inr []),
       virtual = (\<lambda>otr. Inr []),
       get_fermionic_ops_with_cholesky =
         (\<lambda>mo_coeff hcore eri opname halve occ virt eps.
            Inr ([(''IIII'', 0), (''IIZI'', 3 / 10)],
                 Some [[(''IIZI'', 1 / 2), (''IXXI'', 1 / 5)]])) \<rparr>"

definition closed_shell_molecule :: "unit QMolecule" where
  "closed_shell_molecule =
     \<lparr> mo_coeff = (), hcore = (), eri = (), num_alpha = 1, num_beta = 1 \<rparr>"

definition open_shell_molecule :: "unit QMolecule" where
  "open_shell_molecule =
     \<lparr> mo_coeff = (), hcore = (), eri = (), num_alpha = 2, num_beta = 1 \<rparr>"

text \<open>
  The toy operator on four qubits: the one-body operator has the single nonzero term
  \<open>IIZI\<close> of weight 0.3 (its identity term has weight zero), and the single factor has
  the terms \<open>IIZI\<close> of weight 0.5 and \<open>IXXI\<close> of weight 0.2.
\<close>

definition toy_operator :: "(unit, unit) ForgedOperator" where
  "toy_operator =
     \<lparr> qmolecule = closed_shell_molecule, all_orbitals_to_reduce = [],
       orbitals_to_reduce = (), epsilon_cholesky = 1 / 10 ^ 10,
       h_1_op = [(''IIII'', 0), (''IIZI'', 3 / 10)],
       h_chol_ops = Some [[(''IIZI'', 1 / 2), (''IXXI'', 1 / 5)]] \<rparr>"

text \<open>
  The toy operator as the program holds it: each weight is the double nearest to the
  decimal literal.
\<close>

definition toy_operator_float64 :: "(unit, unit) ForgedOperator" where
  "toy_operator_float64 =
     \<lparr> qmolecule = closed_shell_molecule, all_orbitals_to_reduce = [],
       orbitals_to_reduce = (), epsilon_cholesky = float64_round (1 / 10 ^ 10),
       h_1_op = [(''IIII'', 0), (''IIZI'', complex_of_real (float64_round (3 / 10)))],
       h_chol_ops = Some [[(''IIZI'', complex_of_real (float64_round (1 / 2))),
                           (''IXXI'', complex_of_real (float64_round (1 / 5)))]] \<rparr>"

text \<open>The same terms, listed in another order.\<close>

definition toy_operator_reordered :: "(unit, unit) ForgedOperator" where
  "toy_operator_reordered =
     \<lparr> qmolecule = closed_shell_molecule, all_orbitals_to_reduce = [],
       orbitals_to_reduce = (), epsilon_cholesky = 1 / 10 ^ 10,
       h_1_op = [(''IIZI'', 3 / 10), (''IIII'', 0)],
       h_chol_ops = Some [[(''IXXI'', 1 / 5), (''IIZI'', 1 / 2)]] \<rparr>"



text \<open>An operator without factors, and one whose factor has no nonzero term.\<close>

definition one_body_only_operator :: "(unit, unit) ForgedOperator" where
  "one_body_only_operator =
     \<lparr> qmolecule = closed_shell_molecule, all_orbitals_to_reduce = [],
       orbitals_to_reduce = (), epsilon_cholesky = 1 / 10 ^ 10,
       h_1_op = [(''IIZI'', 3 / 10), (''IXXI'', 1 / 5)],
       h_chol_ops = None \<rparr>"

definition zero_factor_operator :: "(unit, unit) ForgedOperator" where
  "zero_factor_operator =
     \<lparr> qmolecule = closed_shell_molecule, all_orbitals_to_reduce = [],
       orbitals_to_reduce = (), epsilon_cholesky = 1 / 10 ^ 10,
       h_1_op = [(''IIZI'', 3 / 10), (''IXXI'', 1 / 5)],
       h_chol_ops = Some [[(''ZZZZ'', 0)]] \<rparr>"

text \<open>An operator none of whose terms has a nonzero weight.\<close>

definition empty_operator :: "(unit, unit) ForgedOperator" where
  "empty_operator =
     \<lparr> qmolecule = closed_shell_molecule, all_orbitals_to_reduce = [],
       orbitals_to_reduce = (), epsilon_cholesky = 1 / 10 ^ 10,
       h_1_op = [(''IIII'', 0)],
       h_chol_ops = Some [[(''IIZI'', 0)], []] \<rparr>"

section \<open>Basic facts\<close>

subsection \<open>The nonzero terms of an operator\<close>

text \<open>The test \<^verbatim>\<open>np.abs(weight) > 0\<close> holds of every weight but zero.\<close>

lemma abs_positive_code [code, simp]: "abs_positive weight \<longleftrightarrow> weight \<noteq> 0"
  by (simp add: abs_positive_def)

lemma keys_fold_update:
  "fst ` set (fold (\<lambda>(label, weight) d. AList.update label weight d) xs d) = fst ` set xs \<union> fst ` set d"
  by (induction xs arbitrary: d) (auto simp: AList.dom_update split: prod.splits)


lemma keys_nonzero_terms:
  "fst ` set (nonzero_terms op) = {label. \<exists>weight. (label, weight) \<in> set op \<and> weight \<noteq> 0}"
  by (force simp: nonzero_terms_def keys_fold_update)


lemma nonzero_terms_eq_Nil:
  "nonzero_terms op = [] \<longleftrightarrow> (\<forall>(label, weight) \<in> set op. weight = 0)"
proof -
  have "nonzero_terms op = [] \<longleftrightarrow> fst ` set (nonzero_terms op) = {}"
    by simp
  also have "\<dots> \<longleftrightarrow> (\<forall>(label, weight) \<in> set op. weight = 0)"
    unfolding keys_nonzero_terms by auto
  finally show ?thesis .
qed

subsection \<open>The loop that collects the labels\<close>

text \<open>
  After the loop the first set holds the labels of all dictionaries, the second those of
  all but the first, and \<^verbatim>\<open>pnames\<close> the keys of the last one, which is empty exactly when
  no operator has a nonzero term.
\<close>

lemma collect_loop_Suc:
  "collect_loop (enumerate (Suc k) ds) (T, S, pn) =
     (T \<union> (\<Union>d \<in> set ds. fst ` set d), S \<union> (\<Union>d \<in> set ds. fst ` set d),
      if ds = [] then pn else map fst (last ds))"
  by (induction ds arbitrary: k T S pn) (auto simp: Let_def)

lemma collect_loop_0:
  "collect_loop (enumerate 0 (d # ds)) ({}, {}, pn) =
     (\<Union>d \<in> set (d # ds). fst ` set d, \<Union>d \<in> set ds. fst ` set d, map fst (last (d # ds)))"
  by (auto simp: Let_def collect_loop_Suc)

lemma has_nonzero_term_iff:
  "has_nonzero_term self \<longleftrightarrow>
     (\<exists>op \<in> set (h_1_op self # cholesky_ops self). nonzero_terms op \<noteq> [])"
  unfolding has_nonzero_term_def nonzero_terms_eq_Nil by blast

lemma last_paulis_each_op_Nil:
  "last (paulis_each_op self) = [] \<longleftrightarrow> \<not> has_nonzero_term self"
proof (cases "filter (\<lambda>p. p \<noteq> []) (map nonzero_terms (cholesky_ops self)) = []")
  case True
  then have "\<forall>op \<in> set (cholesky_ops self). nonzero_terms op = []"
    by (auto simp: filter_empty_conv)
  with True show ?thesis
    by (auto simp: paulis_each_op_def has_nonzero_term_iff)
next
  case False
  then have "last (filter (\<lambda>p. p \<noteq> []) (map nonzero_terms (cholesky_ops self)))
      \<in> set (filter (\<lambda>p. p \<noteq> []) (map nonzero_terms (cholesky_ops self)))"
    by (rule last_in_set)
  then have "last (paulis_each_op self) \<noteq> []"
    using False by (simp add: paulis_each_op_def)
  moreover have "has_nonzero_term self"
    using False by (auto simp: has_nonzero_term_iff filter_empty_conv)
  ultimately show ?thesis by simp
qed

lemma collect_paulis_eq:
  "collect_paulis self =
     (if has_nonzero_term self
      then Inr (spec_tensor_labels self, spec_superpos_labels self, spec_identity self)
      else Inl IndexError)"
proof -
  obtain d ds where peo: "paulis_each_op self = d # ds"
    by (simp add: paulis_each_op_def)
  have loop: "collect_loop (enumerate 0 (paulis_each_op self)) ({}, {}, []) =
      (\<Union>d \<in> set (paulis_each_op self). fst ` set d,
       \<Union>d \<in> set (tl (paulis_each_op self)). fst ` set d,
       map fst (last (paulis_each_op self)))"
    unfolding peo collect_loop_0 by simp
  show ?thesis
  proof (cases "has_nonzero_term self")
    case False
    then have "last (paulis_each_op self) = []"
      by (simp add: last_paulis_each_op_Nil)
    with False show ?thesis
      by (simp add: collect_paulis_def loop)
  next
    case True
    then have "last (paulis_each_op self) \<noteq> []"
      by (simp add: last_paulis_each_op_Nil)
    then obtain x xs where l: "last (paulis_each_op self) = x # xs"
      by (cases "last (paulis_each_op self)") auto
    with True show ?thesis
      by (simp add: collect_paulis_def loop spec_tensor_labels_def spec_superpos_labels_def
          spec_identity_def Let_def)
  qed
qed

lemma finite_spec_tensor_labels: "finite (spec_tensor_labels self)"
  by (simp add: spec_tensor_labels_def)

lemma finite_spec_superpos_labels: "finite (spec_superpos_labels self)"
  by (simp add: spec_superpos_labels_def)

subsection \<open>The label orderings\<close>

text \<open>
  For a list without duplicates the ordering maps each label to its position.
\<close>

lemma enumerate_dict_notin:
  "p \<notin> set xs \<Longrightarrow> enumerate_dict k xs d p = d p"
  by (induction xs arbitrary: k d) auto

lemma enumerate_dict_nth:
  "distinct xs \<Longrightarrow> i < length xs \<Longrightarrow> enumerate_dict k xs d (xs ! i) = Some (k + i)"
proof (induction xs arbitrary: k d i)
  case Nil
  then show ?case by simp
next
  case (Cons x xs)
  show ?case
  proof (cases i)
    case 0
    with Cons.prems show ?thesis
      by (simp add: enumerate_dict_notin)
  next
    case (Suc j)
    with Cons.prems have "distinct xs" "j < length xs"
      by simp_all
    then have "enumerate_dict (Suc k) xs (d(x \<mapsto> k)) (xs ! j) = Some (Suc k + j)"
      by (rule Cons.IH)
    with Suc show ?thesis
      by simp
  qed
qed

lemma pauli_ordering_eq:
  assumes "distinct paulis"
  shows "pauli_ordering paulis p = Some a \<longleftrightarrow> a < length paulis \<and> paulis ! a = p"
proof
  assume r: "pauli_ordering paulis p = Some a"
  then have "p \<in> set paulis"
    using enumerate_dict_notin [of p paulis 0 Map.empty]
    by (auto simp: pauli_ordering_def)
  then obtain i where i: "i < length paulis" "paulis ! i = p"
    by (auto simp: in_set_conv_nth)
  with assms have "pauli_ordering paulis p = Some i"
    using enumerate_dict_nth [of paulis i 0 Map.empty] by (simp add: pauli_ordering_def)
  with r i show "a < length paulis \<and> paulis ! a = p" by simp
next
  assume "a < length paulis \<and> paulis ! a = p"
  with assms show "pauli_ordering paulis p = Some a"
    using enumerate_dict_nth [of paulis a 0 Map.empty] by (auto simp: pauli_ordering_def)
qed

subsection \<open>The loops that fill the matrices\<close>

text \<open>
  Each loop preserves the shape of the matrices, never leaves their range, and adds to
  each entry the sum of the contributions of the terms it has run over.
\<close>

lemma is_square_np_zeros: "is_square n (np_zeros n n)"
  by (simp add: is_square_def np_zeros_def)

lemma np_zeros_nth: "a < n \<Longrightarrow> b < n \<Longrightarrow> np_zeros n n ! a ! b = 0"
  by (simp add: np_zeros_def)

lemma getitem_Some: "d key = Some v \<Longrightarrow> getitem d key = Inr v"
  by (simp add: getitem_def)

lemma add_at_square:
  assumes "is_square n w" and "i < n" and "j < n"
  shows "\<exists>w'. add_at w i j v = Inr w' \<and> is_square n w'
    \<and> (\<forall>a<n. \<forall>b<n. w' ! a ! b = w ! a ! b + (if a = i \<and> b = j then v else 0))"
proof -
  let ?w' = "w[i := (w ! i)[j := w ! i ! j + v]]"
  from assms have len: "length w = n" and row: "length (w ! i) = n"
    by (auto simp: is_square_def)
  with assms have "add_at w i j v = Inr ?w'"
    by (simp add: add_at_def)
  moreover have "is_square n ?w'"
    using assms row set_update_subset_insert [of w i "(w ! i)[j := w ! i ! j + v]"]
    by (auto simp: is_square_def)
  moreover have "\<forall>a<n. \<forall>b<n. ?w' ! a ! b = w ! a ! b + (if a = i \<and> b = j then v else 0)"
  proof (intro allI impI)
    fix a b
    assume "a < n" and "b < n"
    show "?w' ! a ! b = w ! a ! b + (if a = i \<and> b = j then v else 0)"
    proof (cases "a = i")
      case True
      with len row \<open>b < n\<close> assms(2) show ?thesis
        by (simp add: nth_list_update)
    next
      case False
      with len \<open>a < n\<close> show ?thesis
        by simp
    qed
  qed
  ultimately show ?thesis by blast
qed

lemma one_body_loop_entries:
  assumes "is_square n w_ij" and "identity_idx < n"
    and "\<forall>(p, wt) \<in> set items. \<exists>i<n. tensor_ord p = Some i"
  shows "\<exists>w'. one_body_loop tensor_ord identity_idx items w_ij = Inr w' \<and> is_square n w'
    \<and> (\<forall>a<n. \<forall>b<n. w' ! a ! b = w_ij ! a ! b +
          (\<Sum>(p, wt) \<leftarrow> items.
              (if tensor_ord p = Some a \<and> b = identity_idx then Re wt else 0)
            + (if a = identity_idx \<and> tensor_ord p = Some b then Re wt else 0)))"
  using assms
proof (induction items arbitrary: w_ij)
  case Nil
  then show ?case by simp
next
  case (Cons item rest)
  obtain p wt where item: "item = (p, wt)"
    by (cases item)
  with Cons.prems obtain i where i: "i < n" "tensor_ord p = Some i"
    by auto
  from add_at_square [OF Cons.prems(1) i(1) Cons.prems(2), of "Re wt"]
  obtain w1 where w1: "add_at w_ij i identity_idx (Re wt) = Inr w1" "is_square n w1"
    "\<forall>a<n. \<forall>b<n. w1 ! a ! b = w_ij ! a ! b + (if a = i \<and> b = identity_idx then Re wt else 0)"
    by blast
  from add_at_square [OF w1(2) Cons.prems(2) i(1), of "Re wt"]
  obtain w2 where w2: "add_at w1 identity_idx i (Re wt) = Inr w2" "is_square n w2"
    "\<forall>a<n. \<forall>b<n. w2 ! a ! b = w1 ! a ! b + (if a = identity_idx \<and> b = i then Re wt else 0)"
    by blast
  from Cons.prems have "\<forall>(p, wt) \<in> set rest. \<exists>i<n. tensor_ord p = Some i"
    by simp
  from Cons.IH [OF w2(2) Cons.prems(2) this]
  obtain w' where w': "one_body_loop tensor_ord identity_idx rest w2 = Inr w'" "is_square n w'"
    "\<forall>a<n. \<forall>b<n. w' ! a ! b = w2 ! a ! b +
          (\<Sum>(p, wt) \<leftarrow> rest.
              (if tensor_ord p = Some a \<and> b = identity_idx then Re wt else 0)
            + (if a = identity_idx \<and> tensor_ord p = Some b then Re wt else 0))"
    by blast
  have "getitem tensor_ord p = Inr i"
    using i(2) by (rule getitem_Some)
  then have "one_body_loop tensor_ord identity_idx (item # rest) w_ij = Inr w'"
    by (simp add: item w1(1) w2(1) w'(1))
  moreover have "\<forall>a<n. \<forall>b<n. w' ! a ! b = w_ij ! a ! b +
          (\<Sum>(p, wt) \<leftarrow> item # rest.
              (if tensor_ord p = Some a \<and> b = identity_idx then Re wt else 0)
            + (if a = identity_idx \<and> tensor_ord p = Some b then Re wt else 0))"
    using w1(3) w2(3) w'(3) i(2) by (auto simp: item)
  ultimately show ?case
    using w'(2) by blast
qed

lemma pair_loop_entries:
  assumes "is_square n w_ij" and "is_square m w_ab" and "i < n" and "a < m"
    and "\<forall>(p, wt) \<in> set items. (\<exists>j<n. tensor_ord p = Some j) \<and> (\<exists>b<m. superpos_ord p = Some b)"
  shows "\<exists>w_ij' w_ab'.
      pair_loop tensor_ord superpos_ord i a w_1 items (w_ij, w_ab) = Inr (w_ij', w_ab')
    \<and> is_square n w_ij' \<and> is_square m w_ab'
    \<and> (\<forall>x<n. \<forall>y<n. w_ij' ! x ! y = w_ij ! x ! y +
          (\<Sum>(p_2, w_2) \<leftarrow> items.
             if x = i \<and> tensor_ord p_2 = Some y then Re (w_1 * w_2) else 0))
    \<and> (\<forall>x<m. \<forall>y<m. w_ab' ! x ! y = w_ab ! x ! y +
          (\<Sum>(p_2, w_2) \<leftarrow> items.
             if x = a \<and> superpos_ord p_2 = Some y then Re (w_1 * w_2) else 0))"
  using assms
proof (induction items arbitrary: w_ij w_ab)
  case Nil
  then show ?case by simp
next
  case (Cons item rest)
  obtain p_2 w_2 where item: "item = (p_2, w_2)"
    by (cases item)
  with Cons.prems obtain j b where j: "j < n" "tensor_ord p_2 = Some j"
    and b: "b < m" "superpos_ord p_2 = Some b"
    by auto
  from add_at_square [OF Cons.prems(1) Cons.prems(3) j(1), of "Re (w_1 * w_2)"]
  obtain u where u: "add_at w_ij i j (Re (w_1 * w_2)) = Inr u" "is_square n u"
    "\<forall>x<n. \<forall>y<n. u ! x ! y = w_ij ! x ! y + (if x = i \<and> y = j then Re (w_1 * w_2) else 0)"
    by blast
  from add_at_square [OF Cons.prems(2) Cons.prems(4) b(1), of "Re (w_1 * w_2)"]
  obtain v where v: "add_at w_ab a b (Re (w_1 * w_2)) = Inr v" "is_square m v"
    "\<forall>x<m. \<forall>y<m. v ! x ! y = w_ab ! x ! y + (if x = a \<and> y = b then Re (w_1 * w_2) else 0)"
    by blast
  from Cons.prems have "\<forall>(p, wt) \<in> set rest.
      (\<exists>j<n. tensor_ord p = Some j) \<and> (\<exists>b<m. superpos_ord p = Some b)"
    by simp
  from Cons.IH [OF u(2) v(2) Cons.prems(3) Cons.prems(4) this]
  obtain u' v' where r:
    "pair_loop tensor_ord superpos_ord i a w_1 rest (u, v) = Inr (u', v')"
    "is_square n u'" "is_square m v'"
    "\<forall>x<n. \<forall>y<n. u' ! x ! y = u ! x ! y +
          (\<Sum>(p_2, w_2) \<leftarrow> rest.
             if x = i \<and> tensor_ord p_2 = Some y then Re (w_1 * w_2) else 0)"
    "\<forall>x<m. \<forall>y<m. v' ! x ! y = v ! x ! y +
          (\<Sum>(p_2, w_2) \<leftarrow> rest.
             if x = a \<and> superpos_ord p_2 = Some y then Re (w_1 * w_2) else 0)"
    by blast
  have "getitem tensor_ord p_2 = Inr j" and "getitem superpos_ord p_2 = Inr b"
    using j(2) b(2) by (simp_all add: getitem_def)
  then have "pair_loop tensor_ord superpos_ord i a w_1 (item # rest) (w_ij, w_ab) = Inr (u', v')"
    by (simp add: item u(1) v(1) r(1) del: times_complex.sel)
  moreover have "\<forall>x<n. \<forall>y<n. u' ! x ! y = w_ij ! x ! y +
          (\<Sum>(p_2, w_2) \<leftarrow> item # rest.
             if x = i \<and> tensor_ord p_2 = Some y then Re (w_1 * w_2) else 0)"
    using u(3) r(4) j(2) by (auto simp: item)
  moreover have "\<forall>x<m. \<forall>y<m. v' ! x ! y = w_ab ! x ! y +
          (\<Sum>(p_2, w_2) \<leftarrow> item # rest.
             if x = a \<and> superpos_ord p_2 = Some y then Re (w_1 * w_2) else 0)"
    using v(3) r(5) b(2) by (auto simp: item)
  ultimately show ?case
    using r(2,3) by blast
qed

lemma gamma_loop_entries:
  assumes "is_square n w_ij" and "is_square m w_ab"
    and "\<forall>(p, wt) \<in> set gamma. (\<exists>j<n. tensor_ord p = Some j) \<and> (\<exists>b<m. superpos_ord p = Some b)"
    and "\<forall>(p, wt) \<in> set items. (\<exists>j<n. tensor_ord p = Some j) \<and> (\<exists>b<m. superpos_ord p = Some b)"
  shows "\<exists>w_ij' w_ab'.
      gamma_loop tensor_ord superpos_ord gamma items (w_ij, w_ab) = Inr (w_ij', w_ab')
    \<and> is_square n w_ij' \<and> is_square m w_ab'
    \<and> (\<forall>x<n. \<forall>y<n. w_ij' ! x ! y = w_ij ! x ! y +
          (\<Sum>(p_1, w_1) \<leftarrow> items. \<Sum>(p_2, w_2) \<leftarrow> gamma.
             if tensor_ord p_1 = Some x \<and> tensor_ord p_2 = Some y then Re (w_1 * w_2) else 0))
    \<and> (\<forall>x<m. \<forall>y<m. w_ab' ! x ! y = w_ab ! x ! y +
          (\<Sum>(p_1, w_1) \<leftarrow> items. \<Sum>(p_2, w_2) \<leftarrow> gamma.
             if superpos_ord p_1 = Some x \<and> superpos_ord p_2 = Some y
             then Re (w_1 * w_2) else 0))"
  using assms
proof (induction items arbitrary: w_ij w_ab)
  case Nil
  then show ?case by simp
next
  case (Cons item rest)
  obtain p_1 w_1 where item: "item = (p_1, w_1)"
    by (cases item)
  with Cons.prems obtain i a where i: "i < n" "tensor_ord p_1 = Some i"
    and a: "a < m" "superpos_ord p_1 = Some a"
    by auto
  from pair_loop_entries [OF Cons.prems(1) Cons.prems(2) i(1) a(1) Cons.prems(3), of w_1]
  obtain u v where uv:
    "pair_loop tensor_ord superpos_ord i a w_1 gamma (w_ij, w_ab) = Inr (u, v)"
    "is_square n u" "is_square m v"
    "\<forall>x<n. \<forall>y<n. u ! x ! y = w_ij ! x ! y +
          (\<Sum>(p_2, w_2) \<leftarrow> gamma.
             if x = i \<and> tensor_ord p_2 = Some y then Re (w_1 * w_2) else 0)"
    "\<forall>x<m. \<forall>y<m. v ! x ! y = w_ab ! x ! y +
          (\<Sum>(p_2, w_2) \<leftarrow> gamma.
             if x = a \<and> superpos_ord p_2 = Some y then Re (w_1 * w_2) else 0)"
    by blast
  from Cons.prems have "\<forall>(p, wt) \<in> set rest.
      (\<exists>j<n. tensor_ord p = Some j) \<and> (\<exists>b<m. superpos_ord p = Some b)"
    by simp
  from Cons.IH [OF uv(2) uv(3) Cons.prems(3) this]
  obtain u' v' where r:
    "gamma_loop tensor_ord superpos_ord gamma rest (u, v) = Inr (u', v')"
    "is_square n u'" "is_square m v'"
    "\<forall>x<n. \<forall>y<n. u' ! x ! y = u ! x ! y +
          (\<Sum>(p_1, w_1) \<leftarrow> rest. \<Sum>(p_2, w_2) \<leftarrow> gamma.
             if tensor_ord p_1 = Some x \<and> tensor_ord p_2 = Some y then Re (w_1 * w_2) else 0)"
    "\<forall>x<m. \<forall>y<m. v' ! x ! y = v ! x ! y +
          (\<Sum>(p_1, w_1) \<leftarrow> rest. \<Sum>(p_2, w_2) \<leftarrow> gamma.
             if superpos_ord p_1 = Some x \<and> superpos_ord p_2 = Some y
             then Re (w_1 * w_2) else 0)"
    by blast
  have "getitem tensor_ord p_1 = Inr i" and "getitem superpos_ord p_1 = Inr a"
    using i(2) a(2) by (simp_all add: getitem_def)
  then have "gamma_loop tensor_ord superpos_ord gamma (item # rest) (w_ij, w_ab) = Inr (u', v')"
    by (simp add: item uv(1) r(1))
  moreover have "\<forall>x<n. \<forall>y<n. u' ! x ! y = w_ij ! x ! y +
          (\<Sum>(p_1, w_1) \<leftarrow> item # rest. \<Sum>(p_2, w_2) \<leftarrow> gamma.
             if tensor_ord p_1 = Some x \<and> tensor_ord p_2 = Some y then Re (w_1 * w_2) else 0)"
  proof (intro allI impI)
    fix x y
    assume "x < n" and "y < n"
    have "(\<lambda>(p_2, w_2). if x = i \<and> tensor_ord p_2 = Some y then Re (w_1 * w_2) else 0)
        = (\<lambda>(p_2, w_2). if tensor_ord p_1 = Some x \<and> tensor_ord p_2 = Some y
             then Re (w_1 * w_2) else 0)"
      using i(2) by auto
    with uv(4) r(4) \<open>x < n\<close> \<open>y < n\<close>
    show "u' ! x ! y = w_ij ! x ! y +
          (\<Sum>(p_1, w_1) \<leftarrow> item # rest. \<Sum>(p_2, w_2) \<leftarrow> gamma.
             if tensor_ord p_1 = Some x \<and> tensor_ord p_2 = Some y then Re (w_1 * w_2) else 0)"
      by (simp add: item)
  qed
  moreover have "\<forall>x<m. \<forall>y<m. v' ! x ! y = w_ab ! x ! y +
          (\<Sum>(p_1, w_1) \<leftarrow> item # rest. \<Sum>(p_2, w_2) \<leftarrow> gamma.
             if superpos_ord p_1 = Some x \<and> superpos_ord p_2 = Some y
             then Re (w_1 * w_2) else 0)"
  proof (intro allI impI)
    fix x y
    assume "x < m" and "y < m"
    have "(\<lambda>(p_2, w_2). if x = a \<and> superpos_ord p_2 = Some y then Re (w_1 * w_2) else 0)
        = (\<lambda>(p_2, w_2). if superpos_ord p_1 = Some x \<and> superpos_ord p_2 = Some y
             then Re (w_1 * w_2) else 0)"
      using a(2) by auto
    with uv(5) r(5) \<open>x < m\<close> \<open>y < m\<close>
    show "v' ! x ! y = w_ab ! x ! y +
          (\<Sum>(p_1, w_1) \<leftarrow> item # rest. \<Sum>(p_2, w_2) \<leftarrow> gamma.
             if superpos_ord p_1 = Some x \<and> superpos_ord p_2 = Some y
             then Re (w_1 * w_2) else 0)"
      by (simp add: item)
  qed
  ultimately show ?case
    using r(2,3) by blast
qed

lemma cholesky_loop_entries:
  assumes "is_square n w_ij" and "is_square m w_ab"
    and "\<forall>gamma \<in> set gammas. \<forall>(p, wt) \<in> set gamma.
           (\<exists>j<n. tensor_ord p = Some j) \<and> (\<exists>b<m. superpos_ord p = Some b)"
  shows "\<exists>w_ij' w_ab'.
      cholesky_loop tensor_ord superpos_ord gammas (w_ij, w_ab) = Inr (w_ij', w_ab')
    \<and> is_square n w_ij' \<and> is_square m w_ab'
    \<and> (\<forall>x<n. \<forall>y<n. w_ij' ! x ! y = w_ij ! x ! y +
          (\<Sum>gamma \<leftarrow> gammas. \<Sum>(p_1, w_1) \<leftarrow> gamma. \<Sum>(p_2, w_2) \<leftarrow> gamma.
             if tensor_ord p_1 = Some x \<and> tensor_ord p_2 = Some y then Re (w_1 * w_2) else 0))
    \<and> (\<forall>x<m. \<forall>y<m. w_ab' ! x ! y = w_ab ! x ! y +
          (\<Sum>gamma \<leftarrow> gammas. \<Sum>(p_1, w_1) \<leftarrow> gamma. \<Sum>(p_2, w_2) \<leftarrow> gamma.
             if superpos_ord p_1 = Some x \<and> superpos_ord p_2 = Some y
             then Re (w_1 * w_2) else 0))"
  using assms
proof (induction gammas arbitrary: w_ij w_ab)
  case Nil
  then show ?case by simp
next
  case (Cons gamma rest)
  from Cons.prems have g: "\<forall>(p, wt) \<in> set gamma.
      (\<exists>j<n. tensor_ord p = Some j) \<and> (\<exists>b<m. superpos_ord p = Some b)"
    by simp
  from gamma_loop_entries [OF Cons.prems(1) Cons.prems(2) g g]
  obtain u v where uv:
    "gamma_loop tensor_ord superpos_ord gamma gamma (w_ij, w_ab) = Inr (u, v)"
    "is_square n u" "is_square m v"
    "\<forall>x<n. \<forall>y<n. u ! x ! y = w_ij ! x ! y +
          (\<Sum>(p_1, w_1) \<leftarrow> gamma. \<Sum>(p_2, w_2) \<leftarrow> gamma.
             if tensor_ord p_1 = Some x \<and> tensor_ord p_2 = Some y then Re (w_1 * w_2) else 0)"
    "\<forall>x<m. \<forall>y<m. v ! x ! y = w_ab ! x ! y +
          (\<Sum>(p_1, w_1) \<leftarrow> gamma. \<Sum>(p_2, w_2) \<leftarrow> gamma.
             if superpos_ord p_1 = Some x \<and> superpos_ord p_2 = Some y
             then Re (w_1 * w_2) else 0)"
    by blast
  from Cons.prems have "\<forall>gamma \<in> set rest. \<forall>(p, wt) \<in> set gamma.
      (\<exists>j<n. tensor_ord p = Some j) \<and> (\<exists>b<m. superpos_ord p = Some b)"
    by simp
  from Cons.IH [OF uv(2) uv(3) this]
  obtain u' v' where r:
    "cholesky_loop tensor_ord superpos_ord rest (u, v) = Inr (u', v')"
    "is_square n u'" "is_square m v'"
    "\<forall>x<n. \<forall>y<n. u' ! x ! y = u ! x ! y +
          (\<Sum>gamma \<leftarrow> rest. \<Sum>(p_1, w_1) \<leftarrow> gamma. \<Sum>(p_2, w_2) \<leftarrow> gamma.
             if tensor_ord p_1 = Some x \<and> tensor_ord p_2 = Some y then Re (w_1 * w_2) else 0)"
    "\<forall>x<m. \<forall>y<m. v' ! x ! y = v ! x ! y +
          (\<Sum>gamma \<leftarrow> rest. \<Sum>(p_1, w_1) \<leftarrow> gamma. \<Sum>(p_2, w_2) \<leftarrow> gamma.
             if superpos_ord p_1 = Some x \<and> superpos_ord p_2 = Some y
             then Re (w_1 * w_2) else 0)"
    by blast
  have "cholesky_loop tensor_ord superpos_ord (gamma # rest) (w_ij, w_ab) = Inr (u', v')"
    by (simp add: uv(1) r(1))
  moreover have "\<forall>x<n. \<forall>y<n. u' ! x ! y = w_ij ! x ! y +
          (\<Sum>gamma \<leftarrow> gamma # rest. \<Sum>(p_1, w_1) \<leftarrow> gamma. \<Sum>(p_2, w_2) \<leftarrow> gamma.
             if tensor_ord p_1 = Some x \<and> tensor_ord p_2 = Some y then Re (w_1 * w_2) else 0)"
    using uv(4) r(4) by simp
  moreover have "\<forall>x<m. \<forall>y<m. v' ! x ! y = w_ab ! x ! y +
          (\<Sum>gamma \<leftarrow> gamma # rest. \<Sum>(p_1, w_1) \<leftarrow> gamma. \<Sum>(p_2, w_2) \<leftarrow> gamma.
             if superpos_ord p_1 = Some x \<and> superpos_ord p_2 = Some y
             then Re (w_1 * w_2) else 0)"
    using uv(5) r(5) by simp
  ultimately show ?case
    using r(2,3) by blast
qed

lemma square_eqI:
  assumes "is_square n w" and "\<forall>a<n. \<forall>b<n. w ! a ! b = f a b"
  shows "w = map (\<lambda>a. map (\<lambda>b. f a b) [0..<n]) [0..<n]"
proof (rule nth_equalityI)
  from assms show "length w = length (map (\<lambda>a. map (\<lambda>b. f a b) [0..<n]) [0..<n])"
    by (simp add: is_square_def)
next
  fix a
  assume "a < length w"
  with assms have a: "a < n" and row: "length (w ! a) = n"
    by (auto simp: is_square_def)
  have "w ! a = map (\<lambda>b. f a b) [0..<n]"
  proof (rule nth_equalityI)
    show "length (w ! a) = length (map (\<lambda>b. f a b) [0..<n])"
      using row by simp
  next
    fix b
    assume "b < length (w ! a)"
    with row assms(2) a show "w ! a ! b = map (\<lambda>b. f a b) [0..<n] ! b"
      by simp
  qed
  with a show "w ! a = map (\<lambda>a. map (\<lambda>b. f a b) [0..<n]) [0..<n] ! a"
    by simp
qed

lemma fill_weights_eq:
  assumes dt: "distinct tensor_paulis" and ds: "distinct superpos_paulis"
    and idt: "identity_string \<in> set tensor_paulis"
    and k0: "fst ` set (hd each_op) \<subseteq> set tensor_paulis"
    and kt: "\<forall>gamma \<in> set (tl each_op). fst ` set gamma \<subseteq> set tensor_paulis"
    and ks: "\<forall>gamma \<in> set (tl each_op). fst ` set gamma \<subseteq> set superpos_paulis"
  shows "fill_weights each_op tensor_paulis superpos_paulis identity_string =
    Inr (map (\<lambda>a. map (\<lambda>b.
                spec_one_body tensor_paulis identity_string (hd each_op) a b
              + spec_two_body tensor_paulis (tl each_op) a b)
              [0..<length tensor_paulis])
           [0..<length tensor_paulis],
         map (\<lambda>a. map (\<lambda>b. spec_two_body superpos_paulis (tl each_op) a b)
              [0..<length superpos_paulis])
           [0..<length superpos_paulis])"
proof -
  let ?n = "length tensor_paulis" and ?m = "length superpos_paulis"
  let ?tord = "pauli_ordering tensor_paulis" and ?sord = "pauli_ordering superpos_paulis"
  note te = pauli_ordering_eq [OF dt] and se = pauli_ordering_eq [OF ds]
  from idt obtain idx where idx: "idx < ?n" "tensor_paulis ! idx = identity_string"
    by (auto simp: in_set_conv_nth)
  then have "?tord identity_string = Some idx"
    by (simp add: te)
  then have gid: "getitem ?tord identity_string = Inr idx"
    by (rule getitem_Some)
  have in_t: "\<exists>j<?n. ?tord p = Some j" if "p \<in> set tensor_paulis" for p
    using that by (auto simp: in_set_conv_nth te)
  have in_s: "\<exists>j<?m. ?sord p = Some j" if "p \<in> set superpos_paulis" for p
    using that by (auto simp: in_set_conv_nth se)
  have "\<forall>(p, wt) \<in> set (hd each_op). \<exists>i<?n. ?tord p = Some i"
  proof (intro ballI)
    fix x
    assume "x \<in> set (hd each_op)"
    with k0 have "fst x \<in> set tensor_paulis"
      by auto
    from in_t [OF this] show "case x of (p, wt) \<Rightarrow> \<exists>i<?n. ?tord p = Some i"
      by (simp add: case_prod_beta)
  qed
  from one_body_loop_entries [OF is_square_np_zeros idx(1) this]
  obtain w1 where w1: "one_body_loop ?tord idx (hd each_op) (np_zeros ?n ?n) = Inr w1"
    "is_square ?n w1"
    "\<forall>a<?n. \<forall>b<?n. w1 ! a ! b = np_zeros ?n ?n ! a ! b +
          (\<Sum>(p, wt) \<leftarrow> hd each_op.
              (if ?tord p = Some a \<and> b = idx then Re wt else 0)
            + (if a = idx \<and> ?tord p = Some b then Re wt else 0))"
    by blast
  have "\<forall>gamma \<in> set (tl each_op). \<forall>(p, wt) \<in> set gamma.
           (\<exists>j<?n. ?tord p = Some j) \<and> (\<exists>b<?m. ?sord p = Some b)"
  proof (intro ballI)
    fix gamma x
    assume g: "gamma \<in> set (tl each_op)" and x: "x \<in> set gamma"
    from kt g have "fst ` set gamma \<subseteq> set tensor_paulis"
      by (rule bspec)
    with x have xt: "fst x \<in> set tensor_paulis"
      by blast
    from ks g have "fst ` set gamma \<subseteq> set superpos_paulis"
      by (rule bspec)
    with x have xs: "fst x \<in> set superpos_paulis"
      by blast
    from in_t [OF xt] in_s [OF xs] show "case x of (p, wt) \<Rightarrow>
        (\<exists>j<?n. ?tord p = Some j) \<and> (\<exists>b<?m. ?sord p = Some b)"
      by (simp add: case_prod_beta)
  qed
  from cholesky_loop_entries [OF w1(2) is_square_np_zeros this]
  obtain u v where uv:
    "cholesky_loop ?tord ?sord (tl each_op) (w1, np_zeros ?m ?m) = Inr (u, v)"
    "is_square ?n u" "is_square ?m v"
    "\<forall>x<?n. \<forall>y<?n. u ! x ! y = w1 ! x ! y +
          (\<Sum>gamma \<leftarrow> tl each_op. \<Sum>(p_1, w_1) \<leftarrow> gamma. \<Sum>(p_2, w_2) \<leftarrow> gamma.
             if ?tord p_1 = Some x \<and> ?tord p_2 = Some y then Re (w_1 * w_2) else 0)"
    "\<forall>x<?m. \<forall>y<?m. v ! x ! y = np_zeros ?m ?m ! x ! y +
          (\<Sum>gamma \<leftarrow> tl each_op. \<Sum>(p_1, w_1) \<leftarrow> gamma. \<Sum>(p_2, w_2) \<leftarrow> gamma.
             if ?sord p_1 = Some x \<and> ?sord p_2 = Some y then Re (w_1 * w_2) else 0)"
    by blast
  have run: "fill_weights each_op tensor_paulis superpos_paulis identity_string = Inr (u, v)"
    by (simp add: fill_weights_def Let_def gid w1(1) uv(1))
  have idx_iff: "b = idx \<longleftrightarrow> tensor_paulis ! b = identity_string" if "b < ?n" for b
    using that idx dt by (auto simp: nth_eq_iff_index_eq)
  have u_entries: "\<forall>a<?n. \<forall>b<?n. u ! a ! b =
      spec_one_body tensor_paulis identity_string (hd each_op) a b
    + spec_two_body tensor_paulis (tl each_op) a b"
  proof (intro allI impI)
    fix a b
    assume a: "a < ?n" and b: "b < ?n"
    have one: "(\<lambda>(p, wt).
              (if ?tord p = Some a \<and> b = idx then Re wt else 0)
            + (if a = idx \<and> ?tord p = Some b then Re wt else 0))
       = (\<lambda>(p, wt).
              (if tensor_paulis ! a = p \<and> tensor_paulis ! b = identity_string then Re wt else 0)
            + (if tensor_paulis ! a = identity_string \<and> tensor_paulis ! b = p then Re wt else 0))"
      using a b by (simp add: te idx_iff)
    have two: "(\<lambda>(p_1, w_1). \<Sum>(p_2, w_2) \<leftarrow> gamma.
             if ?tord p_1 = Some a \<and> ?tord p_2 = Some b then Re (w_1 * w_2) else 0)
       = (\<lambda>(p_1, w_1). \<Sum>(p_2, w_2) \<leftarrow> gamma.
             if tensor_paulis ! a = p_1 \<and> tensor_paulis ! b = p_2 then Re (w_1 * w_2) else 0)"
      for gamma
      using a b by (simp add: te)
    show "u ! a ! b = spec_one_body tensor_paulis identity_string (hd each_op) a b
      + spec_two_body tensor_paulis (tl each_op) a b"
      using a b uv(4) w1(3)
      by (simp add: one two spec_one_body_def spec_two_body_def np_zeros_nth)
  qed
  have v_entries: "\<forall>a<?m. \<forall>b<?m. v ! a ! b = spec_two_body superpos_paulis (tl each_op) a b"
  proof (intro allI impI)
    fix a b
    assume a: "a < ?m" and b: "b < ?m"
    have two: "(\<lambda>(p_1, w_1). \<Sum>(p_2, w_2) \<leftarrow> gamma.
             if ?sord p_1 = Some a \<and> ?sord p_2 = Some b then Re (w_1 * w_2) else 0)
       = (\<lambda>(p_1, w_1). \<Sum>(p_2, w_2) \<leftarrow> gamma.
             if superpos_paulis ! a = p_1 \<and> superpos_paulis ! b = p_2
             then Re (w_1 * w_2) else 0)"
      for gamma
      using a b by (simp add: se)
    show "v ! a ! b = spec_two_body superpos_paulis (tl each_op) a b"
      using a b uv(5)
      by (simp add: two spec_two_body_def np_zeros_nth)
  qed
  show ?thesis
    unfolding run using square_eqI [OF uv(2) u_entries] square_eqI [OF uv(3) v_entries]
    by simp
qed

subsection \<open>The method computes what the spec describes\<close>

lemma paulis_each_op_nonempty: "paulis_each_op self \<noteq> []"
  by (simp add: paulis_each_op_def)

lemma fill_weights_spec:
  "fill_weights (paulis_each_op self)
      (sorted_list_of_set (spec_tensor_labels self))
      (sorted_list_of_set (spec_superpos_labels self)) (spec_identity self)
    = Inr (spec_w_ij self, spec_w_ab self)"
proof -
  let ?tp = "sorted_list_of_set (spec_tensor_labels self)"
  let ?sp = "sorted_list_of_set (spec_superpos_labels self)"
  have st: "set ?tp = spec_tensor_labels self" and ss: "set ?sp = spec_superpos_labels self"
    by (simp_all add: finite_spec_tensor_labels finite_spec_superpos_labels)
  have dt: "distinct ?tp" and ds: "distinct ?sp"
    by simp_all
  have "spec_identity self \<in> spec_tensor_labels self"
    by (simp add: spec_tensor_labels_def)
  then have idt: "spec_identity self \<in> set ?tp"
    by (simp only: st)
  have "hd (paulis_each_op self) \<in> set (paulis_each_op self)"
    using paulis_each_op_nonempty by (rule hd_in_set)
  then have "fst ` set (hd (paulis_each_op self)) \<subseteq> spec_tensor_labels self"
    unfolding spec_tensor_labels_def by blast
  then have k0: "fst ` set (hd (paulis_each_op self)) \<subseteq> set ?tp"
    by (simp only: st)
  have tl_sub: "set (tl (paulis_each_op self)) \<subseteq> set (paulis_each_op self)"
    using paulis_each_op_nonempty by (cases "paulis_each_op self") auto
  have "\<forall>gamma \<in> set (tl (paulis_each_op self)). fst ` set gamma \<subseteq> spec_tensor_labels self"
    unfolding spec_tensor_labels_def using tl_sub by blast
  then have kt: "\<forall>gamma \<in> set (tl (paulis_each_op self)). fst ` set gamma \<subseteq> set ?tp"
    by (simp only: st)
  have "\<forall>gamma \<in> set (tl (paulis_each_op self)). fst ` set gamma \<subseteq> spec_superpos_labels self"
    unfolding spec_superpos_labels_def by blast
  then have ks: "\<forall>gamma \<in> set (tl (paulis_each_op self)). fst ` set gamma \<subseteq> set ?sp"
    by (simp only: ss)
  show ?thesis
    unfolding fill_weights_eq [OF dt ds idt k0 kt ks]
    by (simp add: spec_w_ij_def spec_w_ab_def Let_def)
qed

lemma construct_eq:
  "construct Log_log (self, sink) =
     (if has_nonzero_term self
      then (Inr (sorted_list_of_set (spec_tensor_labels self),
                 sorted_list_of_set (spec_superpos_labels self),
                 spec_w_ij self, spec_w_ab self),
            self,
            Log_log ''num paulis for superpos states:'' (card (spec_superpos_labels self))
              (Log_log ''num paulis for tensor states:'' (card (spec_tensor_labels self)) sink))
      else (Inl IndexError, self, sink))"
  by (simp add: construct_def collect_paulis_eq fill_weights_spec Let_def)

subsection \<open>Facts about the sums\<close>

lemma sum_list_swap:
  fixes f :: "'a \<Rightarrow> 'b \<Rightarrow> real"
  shows "(\<Sum>x \<leftarrow> xs. \<Sum>y \<leftarrow> ys. f x y) = (\<Sum>y \<leftarrow> ys. \<Sum>x \<leftarrow> xs. f x y)"
proof (induction xs)
  case Nil
  show ?case by simp
next
  case (Cons x xs)
  have "(\<Sum>y \<leftarrow> ys. \<Sum>x' \<leftarrow> x # xs. f x' y)
      = (\<Sum>y \<leftarrow> ys. f x y + (\<Sum>x' \<leftarrow> xs. f x' y))"
    by simp
  also have "\<dots> = (\<Sum>y \<leftarrow> ys. f x y) + (\<Sum>y \<leftarrow> ys. \<Sum>x' \<leftarrow> xs. f x' y)"
    by (rule sum_list_addf)
  finally show ?case
    using Cons.IH by simp
qed

lemma spec_one_body_sym:
  "spec_one_body paulis identity_string d a b = spec_one_body paulis identity_string d b a"
proof -
  have "(\<lambda>(p, w).
          (if paulis ! a = p \<and> paulis ! b = identity_string then Re w else 0)
        + (if paulis ! a = identity_string \<and> paulis ! b = p then Re w else 0))
      = (\<lambda>(p, w).
          (if paulis ! b = p \<and> paulis ! a = identity_string then Re w else 0)
        + (if paulis ! b = identity_string \<and> paulis ! a = p then Re w else 0))"
  proof (intro ext)
    fix x :: "string \<times> complex"
    obtain p w where x: "x = (p, w)"
      by (cases x)
    have "(if paulis ! a = p \<and> paulis ! b = identity_string then Re w else 0)
        = (if paulis ! b = identity_string \<and> paulis ! a = p then Re w else 0)"
      by (simp only: conj_commute)
    moreover have "(if paulis ! a = identity_string \<and> paulis ! b = p then Re w else 0)
        = (if paulis ! b = p \<and> paulis ! a = identity_string then Re w else 0)"
      by (simp only: conj_commute)
    ultimately show "(case x of (p, w) \<Rightarrow>
          (if paulis ! a = p \<and> paulis ! b = identity_string then Re w else 0)
        + (if paulis ! a = identity_string \<and> paulis ! b = p then Re w else 0))
      = (case x of (p, w) \<Rightarrow>
          (if paulis ! b = p \<and> paulis ! a = identity_string then Re w else 0)
        + (if paulis ! b = identity_string \<and> paulis ! a = p then Re w else 0))"
      unfolding x prod.case by (simp only: add.commute)
  qed
  then show ?thesis
    unfolding spec_one_body_def by (rule arg_cong)
qed

lemma pair_sum_sym:
  "(\<Sum>(p_1, w_1) \<leftarrow> gamma. \<Sum>(p_2, w_2) \<leftarrow> gamma.
        if (paulis :: string list) ! a = p_1 \<and> paulis ! b = p_2 then Re (w_1 * w_2) else 0)
 = (\<Sum>(p_1, w_1) \<leftarrow> gamma. \<Sum>(p_2, w_2) \<leftarrow> gamma.
        if paulis ! b = p_1 \<and> paulis ! a = p_2 then Re (w_1 * w_2) else 0)"
proof -
  have "(\<Sum>(p_1, w_1) \<leftarrow> gamma. \<Sum>(p_2, w_2) \<leftarrow> gamma.
        if paulis ! a = p_1 \<and> paulis ! b = p_2 then Re (w_1 * w_2) else 0)
    = (\<Sum>x \<leftarrow> gamma. \<Sum>y \<leftarrow> gamma.
           if paulis ! a = fst x \<and> paulis ! b = fst y then Re (snd x * snd y) else 0)"
    by (simp only: case_prod_unfold)
  also have "\<dots> = (\<Sum>y \<leftarrow> gamma. \<Sum>x \<leftarrow> gamma.
           if paulis ! a = fst x \<and> paulis ! b = fst y then Re (snd x * snd y) else 0)"
    by (rule sum_list_swap)
  also have "(\<lambda>y. \<Sum>x \<leftarrow> gamma.
           if paulis ! a = fst x \<and> paulis ! b = fst y then Re (snd x * snd y) else 0)
      = (\<lambda>y. \<Sum>x \<leftarrow> gamma.
           if paulis ! b = fst y \<and> paulis ! a = fst x then Re (snd y * snd x) else 0)"
  proof (intro ext arg_cong [where f = sum_list] map_cong refl)
    fix x y :: "string \<times> complex"
    have "snd x * snd y = snd y * snd x"
      by (rule mult.commute)
    then show "(if paulis ! a = fst x \<and> paulis ! b = fst y then Re (snd x * snd y) else 0)
        = (if paulis ! b = fst y \<and> paulis ! a = fst x then Re (snd y * snd x) else 0)"
      by (simp only: conj_commute)
  qed
  also have "(\<Sum>y \<leftarrow> gamma. \<Sum>x \<leftarrow> gamma.
           if paulis ! b = fst y \<and> paulis ! a = fst x then Re (snd y * snd x) else 0)
    = (\<Sum>(p_1, w_1) \<leftarrow> gamma. \<Sum>(p_2, w_2) \<leftarrow> gamma.
        if paulis ! b = p_1 \<and> paulis ! a = p_2 then Re (w_1 * w_2) else 0)"
    by (simp only: case_prod_unfold)
  finally show ?thesis .
qed

lemma spec_two_body_sym:
  "spec_two_body paulis ds a b = spec_two_body paulis ds b a"
  unfolding spec_two_body_def by (simp only: pair_sum_sym [where paulis = paulis and a = a and b = b])



subsection \<open>Facts about the computed matrices\<close>

lemma spec_w_ij_nth:
  assumes "a < length (sorted_list_of_set (spec_tensor_labels self))"
    and "b < length (sorted_list_of_set (spec_tensor_labels self))"
  shows "spec_w_ij self ! a ! b =
      spec_one_body (sorted_list_of_set (spec_tensor_labels self)) (spec_identity self)
        (hd (paulis_each_op self)) a b
    + spec_two_body (sorted_list_of_set (spec_tensor_labels self))
        (tl (paulis_each_op self)) a b"
  using assms by (simp add: spec_w_ij_def Let_def)

lemma spec_w_ab_nth:
  assumes "a < length (sorted_list_of_set (spec_superpos_labels self))"
    and "b < length (sorted_list_of_set (spec_superpos_labels self))"
  shows "spec_w_ab self ! a ! b =
      spec_two_body (sorted_list_of_set (spec_superpos_labels self))
        (tl (paulis_each_op self)) a b"
  using assms by (simp add: spec_w_ab_def Let_def)

lemma is_square_spec_w_ij:
  "is_square (length (sorted_list_of_set (spec_tensor_labels self))) (spec_w_ij self)"
  by (auto simp: is_square_def spec_w_ij_def Let_def)

lemma is_square_spec_w_ab:
  "is_square (length (sorted_list_of_set (spec_superpos_labels self))) (spec_w_ab self)"
  by (auto simp: is_square_def spec_w_ab_def Let_def)


lemma tl_paulis_each_op:
  "tl (paulis_each_op self) = filter (\<lambda>p. p \<noteq> []) (map nonzero_terms (cholesky_ops self))"
  by (simp add: paulis_each_op_def)

subsection \<open>Facts about the label sets\<close>

lemma Union_keys_nonzero_terms:
  "(\<Union>op \<in> set ops. fst ` set (nonzero_terms op)) =
     {label. \<exists>op \<in> set ops. \<exists>weight. (label, weight) \<in> set op \<and> weight \<noteq> 0}"
proof (rule set_eqI)
  fix label
  have "label \<in> (\<Union>op \<in> set ops. fst ` set (nonzero_terms op))
      \<longleftrightarrow> (\<exists>op \<in> set ops. label \<in> fst ` set (nonzero_terms op))"
    by (rule UN_iff)
  also have "\<dots> \<longleftrightarrow> (\<exists>op \<in> set ops. \<exists>weight. (label, weight) \<in> set op \<and> weight \<noteq> 0)"
    by (simp only: keys_nonzero_terms mem_Collect_eq)
  finally show "label \<in> (\<Union>op \<in> set ops. fst ` set (nonzero_terms op))
      \<longleftrightarrow> label \<in> {label. \<exists>op \<in> set ops. \<exists>weight. (label, weight) \<in> set op \<and> weight \<noteq> 0}"
    by (simp only: mem_Collect_eq)
qed

lemma Union_filter_nonempty:
  "(\<Union>d \<in> set (filter (\<lambda>p. p \<noteq> []) ds). fst ` set d) = (\<Union>d \<in> set ds. fst ` set d)"
  by (induction ds) auto

lemma spec_superpos_labels_eq:
  "spec_superpos_labels self =
     {label. \<exists>op \<in> set (cholesky_ops self). \<exists>weight. (label, weight) \<in> set op \<and> weight \<noteq> 0}"
proof -
  have "spec_superpos_labels self
      = (\<Union>d \<in> set (map nonzero_terms (cholesky_ops self)). fst ` set d)"
    by (simp only: spec_superpos_labels_def tl_paulis_each_op Union_filter_nonempty)
  also have "\<dots> = (\<Union>op \<in> set (cholesky_ops self). fst ` set (nonzero_terms op))"
    by simp
  finally show ?thesis
    by (simp only: Union_keys_nonzero_terms)
qed

lemma keys_paulis_each_op:
  "(\<Union>d \<in> set (paulis_each_op self). fst ` set d) =
     {label. \<exists>op \<in> set (h_1_op self # cholesky_ops self).
        \<exists>weight. (label, weight) \<in> set op \<and> weight \<noteq> 0}"
proof -
  have "(\<Union>d \<in> set (paulis_each_op self). fst ` set d)
      = fst ` set (nonzero_terms (h_1_op self))
        \<union> (\<Union>d \<in> set (filter (\<lambda>p. p \<noteq> []) (map nonzero_terms (cholesky_ops self))).
             fst ` set d)"
    by (simp add: paulis_each_op_def)
  also have "\<dots> = fst ` set (nonzero_terms (h_1_op self))
        \<union> (\<Union>d \<in> set (map nonzero_terms (cholesky_ops self)). fst ` set d)"
    by (simp only: Union_filter_nonempty)
  also have "\<dots> = (\<Union>op \<in> set (h_1_op self # cholesky_ops self). fst ` set (nonzero_terms op))"
    by simp
  finally show ?thesis
    by (simp only: Union_keys_nonzero_terms)
qed

lemma spec_tensor_labels_eq:
  "spec_tensor_labels self =
     insert (spec_identity self)
       {label. \<exists>op \<in> set (h_1_op self # cholesky_ops self).
          \<exists>weight. (label, weight) \<in> set op \<and> weight \<noteq> 0}"
  by (simp only: spec_tensor_labels_def keys_paulis_each_op)

lemma spec_superpos_subset_tensor: "spec_superpos_labels self \<subseteq> spec_tensor_labels self"
proof
  fix label
  assume "label \<in> spec_superpos_labels self"
  then obtain d where "d \<in> set (tl (paulis_each_op self))" and l: "label \<in> fst ` set d"
    unfolding spec_superpos_labels_def by (rule UN_E)
  then have "d \<in> set (paulis_each_op self)"
    by (simp add: paulis_each_op_def)
  from this l have "label \<in> (\<Union>d \<in> set (paulis_each_op self). fst ` set d)"
    by (rule UN_I)
  then show "label \<in> spec_tensor_labels self"
    unfolding spec_tensor_labels_def by (rule insertI2)
qed

lemma spec_identity_eq:
  assumes "has_nonzero_term self" and "labels_have_length n self"
  shows "spec_identity self = replicate n CHR ''I''"
proof -
  from assms(1) have ne: "last (paulis_each_op self) \<noteq> []"
    by (simp add: last_paulis_each_op_Nil)
  then have "hd (last (paulis_each_op self)) \<in> set (last (paulis_each_op self))"
    by (rule hd_in_set)
  then have "fst (hd (last (paulis_each_op self))) \<in> fst ` set (last (paulis_each_op self))"
    by (rule imageI)
  moreover have "last (paulis_each_op self) \<in> set (paulis_each_op self)"
    using paulis_each_op_nonempty by (rule last_in_set)
  ultimately have "fst (hd (last (paulis_each_op self)))
      \<in> (\<Union>d \<in> set (paulis_each_op self). fst ` set d)"
    by (rule UN_I [rotated])
  then obtain op weight where op: "op \<in> set (h_1_op self # cholesky_ops self)"
    and lw: "(fst (hd (last (paulis_each_op self))), weight) \<in> set op"
    unfolding keys_paulis_each_op by blast
  from assms(2) op have "\<forall>(label, weight) \<in> set op. length label = n"
    unfolding labels_have_length_def by (rule bspec)
  with lw have "length (fst (hd (last (paulis_each_op self)))) = n"
    by fastforce
  then show ?thesis
    by (simp only: spec_identity_def)
qed

subsection \<open>The entries of the returned matrices\<close>


lemma spec_one_body_off_identity:
  assumes "paulis ! a \<noteq> identity_string" and "paulis ! b \<noteq> identity_string"
  shows "spec_one_body paulis identity_string d a b = 0"
  unfolding spec_one_body_def using assms by (induction d) auto

lemma spec_two_body_Nil: "spec_two_body paulis [] a b = 0"
  by (simp add: spec_two_body_def)

subsection \<open>Operators with the same terms\<close>

lemma bex_set_cong:
  assumes "map set xs = map set ys"
  shows "(\<exists>op \<in> set xs. P (set op)) \<longleftrightarrow> (\<exists>op \<in> set ys. P (set op))"
proof -
  have "(\<exists>op \<in> set xs. P (set op)) \<longleftrightarrow> (\<exists>S \<in> set (map set xs). P S)"
    by simp
  also have "\<dots> \<longleftrightarrow> (\<exists>S \<in> set (map set ys). P S)"
    by (simp only: assms)
  also have "\<dots> \<longleftrightarrow> (\<exists>op \<in> set ys. P (set op))"
    by simp
  finally show ?thesis .
qed

lemma same_terms_all_ops:
  assumes "set (h_1_op self') = set (h_1_op self)"
    and "map set (cholesky_ops self') = map set (cholesky_ops self)"
  shows "map set (h_1_op self' # cholesky_ops self') = map set (h_1_op self # cholesky_ops self)"
  using assms by simp

lemma same_terms_has_nonzero_term:
  assumes "set (h_1_op self') = set (h_1_op self)"
    and "map set (cholesky_ops self') = map set (cholesky_ops self)"
  shows "has_nonzero_term self' \<longleftrightarrow> has_nonzero_term self"
  unfolding has_nonzero_term_def
  by (rule bex_set_cong [OF same_terms_all_ops [OF assms],
        where P = "\<lambda>S. \<exists>(label, weight) \<in> S. weight \<noteq> 0"])

lemma same_terms_labels_have_length:
  assumes "set (h_1_op self') = set (h_1_op self)"
    and "map set (cholesky_ops self') = map set (cholesky_ops self)"
  shows "labels_have_length n self' \<longleftrightarrow> labels_have_length n self"
proof -
  have "(\<exists>op \<in> set (h_1_op self' # cholesky_ops self').
            \<not> (\<forall>(label, weight) \<in> set op. length label = n))
    \<longleftrightarrow> (\<exists>op \<in> set (h_1_op self # cholesky_ops self).
            \<not> (\<forall>(label, weight) \<in> set op. length label = n))"
    by (rule bex_set_cong [OF same_terms_all_ops [OF assms],
          where P = "\<lambda>S. \<not> (\<forall>(label, weight) \<in> S. length label = n)"])
  then show ?thesis
    unfolding labels_have_length_def by blast
qed

lemma same_terms_superpos_labels:
  assumes "map set (cholesky_ops self') = map set (cholesky_ops self)"
  shows "spec_superpos_labels self' = spec_superpos_labels self"
proof (rule set_eqI)
  fix label
  show "label \<in> spec_superpos_labels self' \<longleftrightarrow> label \<in> spec_superpos_labels self"
    unfolding spec_superpos_labels_eq mem_Collect_eq
    by (rule bex_set_cong [OF assms,
          where P = "\<lambda>S. \<exists>weight. (label, weight) \<in> S \<and> weight \<noteq> 0"])
qed

lemma same_terms_tensor_labels:
  assumes "set (h_1_op self') = set (h_1_op self)"
    and "map set (cholesky_ops self') = map set (cholesky_ops self)"
    and "spec_identity self' = spec_identity self"
  shows "spec_tensor_labels self' = spec_tensor_labels self"
proof -
  have "{label. \<exists>op \<in> set (h_1_op self' # cholesky_ops self').
          \<exists>weight. (label, weight) \<in> set op \<and> weight \<noteq> 0}
      = {label. \<exists>op \<in> set (h_1_op self # cholesky_ops self).
          \<exists>weight. (label, weight) \<in> set op \<and> weight \<noteq> 0}"
  proof (rule set_eqI)
    fix label
    show "label \<in> {label. \<exists>op \<in> set (h_1_op self' # cholesky_ops self').
          \<exists>weight. (label, weight) \<in> set op \<and> weight \<noteq> 0}
      \<longleftrightarrow> label \<in> {label. \<exists>op \<in> set (h_1_op self # cholesky_ops self).
          \<exists>weight. (label, weight) \<in> set op \<and> weight \<noteq> 0}"
      unfolding mem_Collect_eq
      by (rule bex_set_cong [OF same_terms_all_ops [OF assms(1,2)],
            where P = "\<lambda>S. \<exists>weight. (label, weight) \<in> S \<and> weight \<noteq> 0"])
  qed
  then show ?thesis
    by (simp only: spec_tensor_labels_eq assms(3))
qed

subsection \<open>The exact arithmetic\<close>

text \<open>With the exact operations the parametrised method is the exact one.\<close>

lemma add_at_exact: "add_at_arith exact_arith w i j v = add_at w i j v"
  by (simp add: add_at_arith_def add_at_def exact_arith_def)

lemma one_body_loop_exact:
  "one_body_loop_arith exact_arith tensor_ord identity_idx items w_ij
     = one_body_loop tensor_ord identity_idx items w_ij"
  by (induction items arbitrary: w_ij) (auto simp: add_at_exact split: sum.splits)

lemma np_real_mult_exact: "np_real_mult exact_arith w_1 w_2 = Re (w_1 * w_2)"
  by (simp add: exact_arith_def)

lemma pair_loop_exact:
  "pair_loop_arith exact_arith tensor_ord superpos_ord i a w_1 items ws
     = pair_loop tensor_ord superpos_ord i a w_1 items ws"
proof (induction items arbitrary: ws)
  case Nil
  show ?case by simp
next
  case (Cons item rest)
  obtain p_2 w_2 where item: "item = (p_2, w_2)"
    by (cases item)
  obtain w_ij w_ab where ws: "ws = (w_ij, w_ab)"
    by (cases ws)
  show ?case
    unfolding item ws
    by (simp only: pair_loop_arith.simps pair_loop.simps add_at_exact np_real_mult_exact Cons.IH)
qed

lemma gamma_loop_exact:
  "gamma_loop_arith exact_arith tensor_ord superpos_ord gamma items ws
     = gamma_loop tensor_ord superpos_ord gamma items ws"
proof (induction items arbitrary: ws)
  case Nil
  show ?case by simp
next
  case (Cons item rest)
  obtain p_1 w_1 where item: "item = (p_1, w_1)"
    by (cases item)
  show ?case
    unfolding item
    by (simp add: pair_loop_exact Cons.IH cong: sum.case_cong)
qed

lemma cholesky_loop_exact:
  "cholesky_loop_arith exact_arith tensor_ord superpos_ord gammas ws
     = cholesky_loop tensor_ord superpos_ord gammas ws"
  by (induction gammas arbitrary: ws) (simp_all add: gamma_loop_exact cong: sum.case_cong)

lemma fill_weights_exact:
  "fill_weights_arith exact_arith each_op tensor_paulis superpos_paulis identity_string
     = fill_weights each_op tensor_paulis superpos_paulis identity_string"
  by (simp only: fill_weights_arith_def fill_weights_def one_body_loop_exact cholesky_loop_exact)

lemma construct_exact: "construct_arith exact_arith Log_log st = construct Log_log st"
  by (simp only: construct_arith_def construct_def fill_weights_exact)

subsection \<open>The floating-point arithmetic\<close>

text \<open>\<open>floor_log2\<close> computes the integer part of the binary logarithm.\<close>

lemma floor_log2_eq:
  assumes "0 < x"
  shows "floor_log2 x = \<lfloor>log 2 x\<rfloor>"
proof (cases "1 \<le> x")
  case True
  define n where "n = nat \<lfloor>x\<rfloor>"
  define k where "k = floorlog 2 n"
  from True have "1 \<le> \<lfloor>x\<rfloor>"
    by simp
  then have rn: "real n = of_int \<lfloor>x\<rfloor>" and n0: "0 < n"
    unfolding n_def by simp_all
  have n: "0 < n" "real n \<le> x" "x < real n + 1"
    unfolding rn using n0 by linarith+
  from floorlog_bounds [of n 2] n(1) have b: "2 ^ (k - 1) \<le> n" "n < 2 ^ k"
    unfolding k_def by simp_all
  from n(1) have k: "0 < k"
    unfolding k_def by (simp add: floorlog_def)
  from b(1) have "real (2 ^ (k - 1)) \<le> real n"
    by (rule of_nat_mono)
  then have "(2::real) ^ (k - 1) \<le> real n"
    by simp
  with n(2) have lo: "(2::real) ^ (k - 1) \<le> x"
    by linarith
  from b(2) have "n + 1 \<le> 2 ^ k"
    by simp
  then have "real (n + 1) \<le> real (2 ^ k)"
    by (rule of_nat_mono)
  then have "real n + 1 \<le> 2 ^ k"
    by simp
  with n(3) have hi: "x < 2 ^ k"
    by linarith
  have p1: "(2::real) powr real_of_int (int k - 1) = 2 ^ (k - 1)"
  proof -
    have "real_of_int (int k - 1) = real (k - 1)"
      using k by (simp add: of_nat_diff)
    then show ?thesis
      by (simp only: powr_realpow zero_less_numeral)
  qed
  have p2: "(2::real) powr real_of_int (int k - 1 + 1) = 2 ^ k"
  proof -
    have "real_of_int (int k - 1 + 1) = real k"
      by simp
    then show ?thesis
      by (simp only: powr_realpow zero_less_numeral)
  qed
  have one: "(1::real) < 2"
    by simp
  have "2 powr real_of_int (int k - 1) \<le> x \<and> x < 2 powr real_of_int (int k - 1 + 1)"
    unfolding p1 p2 using lo hi by (rule conjI)
  with floor_log_eq_powr_iff [OF assms one, of "int k - 1"] have "\<lfloor>log 2 x\<rfloor> = int k - 1"
    by blast
  with True show ?thesis
    by (simp add: floor_log2_def n_def k_def)
next
  case False
  define y where "y = 1 / x"
  define m where "m = nat (\<lceil>y\<rceil> - 1)"
  define k where "k = floorlog 2 m"
  from False assms have y: "1 < y"
    unfolding y_def by simp
  then have "1 \<le> \<lceil>y\<rceil> - 1"
    by linarith
  then have rm: "real m = of_int \<lceil>y\<rceil> - 1" and m0: "0 < m"
    unfolding m_def by simp_all
  have m: "0 < m" "real m < y" "y \<le> real m + 1"
    unfolding rm using m0 by linarith+
  from floorlog_bounds [of m 2] m(1) have b: "2 ^ (k - 1) \<le> m" "m < 2 ^ k"
    unfolding k_def by simp_all
  from m(1) have k: "0 < k"
    unfolding k_def by (simp add: floorlog_def)
  from b(1) have "real (2 ^ (k - 1)) \<le> real m"
    by (rule of_nat_mono)
  then have "(2::real) ^ (k - 1) \<le> real m"
    by simp
  with m(2) have lo: "(2::real) ^ (k - 1) < y"
    by linarith
  from b(2) have "m + 1 \<le> 2 ^ k"
    by simp
  then have "real (m + 1) \<le> real (2 ^ k)"
    by (rule of_nat_mono)
  then have "real m + 1 \<le> 2 ^ k"
    by simp
  with m(3) have hi: "y \<le> 2 ^ k"
    by linarith
  have x: "x = 1 / y"
    unfolding y_def by simp
  have p1: "(2::real) powr real_of_int (- int k) = 1 / 2 ^ k"
  proof -
    have "real_of_int (- int k) = - real k"
      by simp
    then show ?thesis
      by (simp only: powr_minus powr_realpow zero_less_numeral inverse_eq_divide)
  qed
  have p2: "(2::real) powr real_of_int (- int k + 1) = 1 / 2 ^ (k - 1)"
  proof -
    have "real_of_int (- int k + 1) = - real (k - 1)"
      using k by (simp add: of_nat_diff)
    then show ?thesis
      by (simp only: powr_minus powr_realpow zero_less_numeral inverse_eq_divide)
  qed
  have "1 / 2 ^ k \<le> x"
    unfolding x using hi y by (simp add: frac_le)
  moreover have "x < 1 / 2 ^ (k - 1)"
    unfolding x using lo by (simp add: frac_less2)
  ultimately have "2 powr real_of_int (- int k) \<le> x
      \<and> x < 2 powr real_of_int (- int k + 1)"
    unfolding p1 p2 by (rule conjI)
  moreover have one: "(1::real) < 2"
    by simp
  ultimately have "\<lfloor>log 2 x\<rfloor> = - int k"
    using floor_log_eq_powr_iff [OF assms one, of "- int k"] by blast
  with False show ?thesis
    by (simp add: floor_log2_def y_def m_def k_def)
qed

text \<open>
  The doubles of the decimal literals of the toy input, as integer ratios. The double of
  \<open>0.2 * 0.2\<close> is one unit in the last place above the double of the literal \<open>0.04\<close>.
\<close>

lemma float64_literals:
  "float64_round (1 / 2) = 1 / 2"
  "float64_round (3 / 10) = 5404319552844595 / 2 ^ 54"
  "float64_round (1 / 5) = 3602879701896397 / 2 ^ 54"
  "float64_round (1 / 10) = 3602879701896397 / 2 ^ 55"
  "float64_round (1 / 25) = 5764607523034235 / 2 ^ 57"
  "float64_round (float64_round (1 / 5) * float64_round (1 / 5)) = 5764607523034236 / 2 ^ 57"
  by code_simp+

subsection \<open>The toy input in doubles\<close>

text \<open>The products of the toy weights in doubles.\<close>

lemma float64_products:
  "float64_round (float64_round (1 / 2) * float64_round (1 / 2)) = 1 / 4"
  "float64_round (float64_round (1 / 2) * float64_round (1 / 5)) = 3602879701896397 / 2 ^ 55"
  "float64_round (float64_round (1 / 5) * float64_round (1 / 2)) = 3602879701896397 / 2 ^ 55"
  "float64_round (float64_round (1 / 5) * float64_round (1 / 5)) = 1441151880758559 / 2 ^ 55"
  by code_simp+

text \<open>The run of the method on the toy input in doubles, step by step.\<close>

lemma paulis_each_op_toy_float64:
  "paulis_each_op toy_operator_float64 =
     [[(''IIZI'', complex_of_real (5404319552844595 / 2 ^ 54))],
      [(''IIZI'', complex_of_real (1 / 2)),
       (''IXXI'', complex_of_real (3602879701896397 / 2 ^ 54))]]"
  by (simp add: toy_operator_float64_def float64_literals paulis_each_op_def cholesky_ops_def
      nonzero_terms_def)

lemma collect_paulis_toy_float64:
  "collect_paulis toy_operator_float64 =
     Inr ({''IIII'', ''IIZI'', ''IXXI''}, {''IIZI'', ''IXXI''}, ''IIII'')"
  unfolding collect_paulis_def paulis_each_op_toy_float64
  by (simp add: enumerate_eq_zip Let_def insert_commute)

lemma sorted_toy_labels:
  "sorted_list_of_set {''IIII'', ''IIZI'', ''IXXI''} = [''IIII'', ''IIZI'', ''IXXI'']"
  "sorted_list_of_set {''IIZI'', ''IXXI''} = [''IIZI'', ''IXXI'']"
  by code_simp+

lemma fill_weights_toy_float64:
  "fill_weights_arith float64_arith
     [[(''IIZI'', complex_of_real (5404319552844595 / 2 ^ 54))],
      [(''IIZI'', complex_of_real (1 / 2)),
       (''IXXI'', complex_of_real (3602879701896397 / 2 ^ 54))]]
     [''IIII'', ''IIZI'', ''IXXI''] [''IIZI'', ''IXXI''] ''IIII'' =
     Inr ([[0, 5404319552844595 / 2 ^ 54, 0],
           [5404319552844595 / 2 ^ 54, 1 / 4, 3602879701896397 / 2 ^ 55],
           [0, 3602879701896397 / 2 ^ 55, 1441151880758559 / 2 ^ 55]],
          [[1 / 4, 3602879701896397 / 2 ^ 55],
           [3602879701896397 / 2 ^ 55, 1441151880758559 / 2 ^ 55]])"
  by code_simp

lemma construct_toy_float64:
  "fst (construct_arith float64_arith Log_log (toy_operator_float64, sink)) =
     Inr ([''IIII'', ''IIZI'', ''IXXI''], [''IIZI'', ''IXXI''],
          [[0, 5404319552844595 / 2 ^ 54, 0],
           [5404319552844595 / 2 ^ 54, 1 / 4, 3602879701896397 / 2 ^ 55],
           [0, 3602879701896397 / 2 ^ 55, 1441151880758559 / 2 ^ 55]],
          [[1 / 4, 3602879701896397 / 2 ^ 55],
           [3602879701896397 / 2 ^ 55, 1441151880758559 / 2 ^ 55]])"
  by (simp only: construct_arith_def collect_paulis_toy_float64 sorted_toy_labels
      paulis_each_op_toy_float64 fill_weights_toy_float64 Let_def prod.case sum.case fst_conv)

subsection \<open>The labels have indices\<close>




text \<open>
  The terms that the dictionary of an operator holds are terms of the operator, of nonzero
  weight.
\<close>

lemma set_update_subset: "set (AList.update k v d) \<subseteq> insert (k, v) (set d)"
  by (induction d) auto

lemma set_fold_update_subset:
  "set (fold (\<lambda>(label, weight) d. AList.update label weight d) xs d) \<subseteq> set xs \<union> set d"
proof (induction xs arbitrary: d)
  case Nil
  show ?case by simp
next
  case (Cons x xs)
  obtain k v where x: "x = (k, v)"
    by (cases x)
  have "set (fold (\<lambda>(label, weight) d. AList.update label weight d) xs (AList.update k v d))
      \<subseteq> set xs \<union> set (AList.update k v d)"
    by (rule Cons.IH)
  with set_update_subset [of k v d] show ?case
    unfolding x by auto
qed

lemma nonzero_terms_sound:
  assumes "(p, w) \<in> set (nonzero_terms op)"
  shows "(p, w) \<in> set op \<and> w \<noteq> 0"
proof -
  have "set (nonzero_terms op)
      \<subseteq> set (filter (\<lambda>(label, weight). abs_positive weight) op) \<union> set []"
    unfolding nonzero_terms_def by (rule set_fold_update_subset)
  then have "set (nonzero_terms op)
      \<subseteq> set (filter (\<lambda>(label, weight). abs_positive weight) op)"
    by (simp only: list.set Un_empty_right)
  with assms have "(p, w) \<in> set (filter (\<lambda>(label, weight). abs_positive weight) op)"
    by (rule rev_subsetD)
  then show ?thesis
    by simp
qed

text \<open>
  When an operator lists no label twice, its dictionary is the list of its terms of
  nonzero weight, in the order of the operator.
\<close>

lemma update_fresh: "k \<notin> fst ` set d \<Longrightarrow> AList.update k v d = d @ [(k, v)]"
  by (induction d) auto

lemma fold_update_distinct:
  assumes "distinct (map fst xs)" and "fst ` set xs \<inter> fst ` set d = {}"
  shows "fold (\<lambda>(label, weight) d. AList.update label weight d) xs d = d @ xs"
  using assms
proof (induction xs arbitrary: d)
  case Nil
  show ?case by simp
next
  case (Cons x xs)
  obtain k v where x: "x = (k, v)"
    by (cases x)
  from Cons.prems have fresh: "k \<notin> fst ` set d"
    unfolding x by auto
  from Cons.prems have "distinct (map fst xs)"
    and "fst ` set xs \<inter> fst ` set (d @ [(k, v)]) = {}"
    unfolding x by auto
  then have "fold (\<lambda>(label, weight) d. AList.update label weight d) xs (d @ [(k, v)])
      = (d @ [(k, v)]) @ xs"
    by (rule Cons.IH)
  then show ?case
    unfolding x by (simp add: update_fresh [OF fresh])
qed

lemma nonzero_terms_distinct:
  assumes "distinct (map fst op)"
  shows "nonzero_terms op = filter (\<lambda>(label, weight). weight \<noteq> 0) op"
proof -
  from assms have "distinct (map fst (filter (\<lambda>(label, weight). weight \<noteq> 0) op))"
    by (simp add: distinct_map_filter)
  then show ?thesis
    unfolding nonzero_terms_def abs_positive_code
    using fold_update_distinct [of "filter (\<lambda>(label, weight). weight \<noteq> 0) op" "[]"]
    by simp
qed


section \<open>The claims\<close>

subsection \<open>C1: the toy molecule\<close>

text \<open>
  In exact arithmetic the toy input gives the numbers of the claim: 3/10, 1/4, 1/10 and
  1/25.
\<close>

lemma construct_toy_operator_exact:
  "fst (construct Log_log (toy_operator, sink)) =
     Inr ([''IIII'', ''IIZI'', ''IXXI''], [''IIZI'', ''IXXI''],
          [[0, 3 / 10, 0], [3 / 10, 1 / 4, 1 / 10], [0, 1 / 10, 1 / 25]],
          [[1 / 4, 1 / 10], [1 / 10, 1 / 25]])"
  unfolding toy_operator_def closed_shell_molecule_def by code_simp

text \<open>
  Against claim C1 as stated, which gives the value 0.04 for the cell of the pair
  (\<open>IXXI\<close>, \<open>IXXI\<close>): the program computes in doubles, and in both matrices it stores at
  that cell the double of \<open>0.2 * 0.2\<close>, which is \<open>1441151880758559 / 2 ^ 55\<close> and prints as
  0.04000000000000001. This is neither the double of the literal \<open>0.04\<close>, which is
  \<open>5764607523034235 / 2 ^ 57\<close>, nor the number 1/25.
\<close>

theorem construct_float64_toy_cell_not_004:
  "fst (construct_arith float64_arith record_log (toy_operator_float64, [])) =
     Inr ([''IIII'', ''IIZI'', ''IXXI''], [''IIZI'', ''IXXI''],
          [[0, 5404319552844595 / 2 ^ 54, 0],
           [5404319552844595 / 2 ^ 54, 1 / 4, 3602879701896397 / 2 ^ 55],
           [0, 3602879701896397 / 2 ^ 55, 1441151880758559 / 2 ^ 55]],
          [[1 / 4, 3602879701896397 / 2 ^ 55],
           [3602879701896397 / 2 ^ 55, 1441151880758559 / 2 ^ 55]])
   \<and> float64_round (1 / 25) = 5764607523034235 / 2 ^ 57
   \<and> (1441151880758559 / 2 ^ 55 :: real) \<noteq> float64_round (1 / 25)
   \<and> (1441151880758559 / 2 ^ 55 :: real) \<noteq> 1 / 25"
  by (simp add: construct_toy_float64 float64_literals)

text \<open>
  Claim C1, amended. For the toy input (one-body operator with the single nonzero term
  \<open>IIZI\<close> of weight 0.3, one factor with the terms \<open>IIZI\<close> of weight 0.5 and \<open>IXXI\<close> of
  weight 0.2, the weights being doubles), \<^verbatim>\<open>construct\<close> returns the tensor labels \<open>IIII\<close>,
  \<open>IIZI\<close>, \<open>IXXI\<close> and the superposition labels \<open>IIZI\<close>, \<open>IXXI\<close>; \<open>w_ij\<close> has the double
  0.3 at (\<open>IIZI\<close>, \<open>IIII\<close>) and at (\<open>IIII\<close>, \<open>IIZI\<close>); \<open>w_ij\<close> and \<open>w_ab\<close> have at the pairs
  (\<open>IIZI\<close>, \<open>IIZI\<close>), (\<open>IIZI\<close>, \<open>IXXI\<close>), (\<open>IXXI\<close>, \<open>IIZI\<close>), (\<open>IXXI\<close>, \<open>IXXI\<close>) the
  products in doubles \<open>0.5 * 0.5\<close>, \<open>0.5 * 0.2\<close>, \<open>0.2 * 0.5\<close>, \<open>0.2 * 0.2\<close>; every other entry
  is zero. The first three products are the doubles 0.25, 0.1 and 0.1; the last is one
  unit in the last place above the double 0.04 and prints as 0.04000000000000001.
\<close>

theorem construct_float64_toy_operator:
  "fst (construct_arith float64_arith Log_log (toy_operator_float64, sink)) =
     Inr ([''IIII'', ''IIZI'', ''IXXI''], [''IIZI'', ''IXXI''],
          [[0, float64_round (3 / 10), 0],
           [float64_round (3 / 10),
            float64_round (float64_round (1 / 2) * float64_round (1 / 2)),
            float64_round (float64_round (1 / 2) * float64_round (1 / 5))],
           [0,
            float64_round (float64_round (1 / 5) * float64_round (1 / 2)),
            float64_round (float64_round (1 / 5) * float64_round (1 / 5))]],
          [[float64_round (float64_round (1 / 2) * float64_round (1 / 2)),
            float64_round (float64_round (1 / 2) * float64_round (1 / 5))],
           [float64_round (float64_round (1 / 5) * float64_round (1 / 2)),
            float64_round (float64_round (1 / 5) * float64_round (1 / 5))]])
   \<and> float64_round (float64_round (1 / 2) * float64_round (1 / 2)) = float64_round (1 / 4)
   \<and> float64_round (float64_round (1 / 2) * float64_round (1 / 5)) = float64_round (1 / 10)
   \<and> float64_round (float64_round (1 / 5) * float64_round (1 / 2)) = float64_round (1 / 10)
   \<and> float64_round (float64_round (1 / 5) * float64_round (1 / 5))
       = float64_round (1 / 25) + 1 / 2 ^ 57"
proof -
  have quarter: "float64_round (1 / 4) = 1 / 4"
    by code_simp
  show ?thesis
    by (simp only: float64_products) (simp add: construct_toy_float64 float64_literals quarter)
qed

subsection \<open>C2: square and symmetric matrices\<close>

text \<open>
  Claim C2. For every input some operator of which has a nonzero term (for the others
  \<^verbatim>\<open>construct\<close> raises), the method returns, \<open>w_ij\<close> is a square matrix of the size of
  \<open>tensor_paulis\<close>, \<open>w_ab\<close> a square matrix of the size of \<open>superpos_paulis\<close>, and both are
  symmetric: \<open>w[i, j] = w[j, i]\<close> for all indices.
\<close>

theorem construct_square_symmetric:
  assumes "has_nonzero_term self"
  shows "\<exists>tensor_paulis superpos_paulis w_ij w_ab.
      fst (construct Log_log (self, sink)) = Inr (tensor_paulis, superpos_paulis, w_ij, w_ab)
    \<and> length w_ij = length tensor_paulis
    \<and> (\<forall>row \<in> set w_ij. length row = length tensor_paulis)
    \<and> length w_ab = length superpos_paulis
    \<and> (\<forall>row \<in> set w_ab. length row = length superpos_paulis)
    \<and> (\<forall>i<length tensor_paulis. \<forall>j<length tensor_paulis. w_ij ! i ! j = w_ij ! j ! i)
    \<and> (\<forall>a<length superpos_paulis. \<forall>b<length superpos_paulis. w_ab ! a ! b = w_ab ! b ! a)"
proof -
  let ?tp = "sorted_list_of_set (spec_tensor_labels self)"
  let ?sp = "sorted_list_of_set (spec_superpos_labels self)"
  have run: "fst (construct Log_log (self, sink)) = Inr (?tp, ?sp, spec_w_ij self, spec_w_ab self)"
    using assms by (simp add: construct_eq)
  have sq_ij: "length (spec_w_ij self) = length ?tp"
    "\<forall>row \<in> set (spec_w_ij self). length row = length ?tp"
    using is_square_spec_w_ij [of self] by (auto simp: is_square_def)
  have sq_ab: "length (spec_w_ab self) = length ?sp"
    "\<forall>row \<in> set (spec_w_ab self). length row = length ?sp"
    using is_square_spec_w_ab [of self] by (auto simp: is_square_def)
  have sym_ij: "\<forall>i<length ?tp. \<forall>j<length ?tp. spec_w_ij self ! i ! j = spec_w_ij self ! j ! i"
  proof (intro allI impI)
    fix i j
    assume "i < length ?tp" and "j < length ?tp"
    then show "spec_w_ij self ! i ! j = spec_w_ij self ! j ! i"
      by (simp only: spec_w_ij_nth spec_one_body_sym [of _ _ _ i j]
          spec_two_body_sym [of _ _ i j])
  qed
  have sym_ab: "\<forall>a<length ?sp. \<forall>b<length ?sp. spec_w_ab self ! a ! b = spec_w_ab self ! b ! a"
  proof (intro allI impI)
    fix a b
    assume "a < length ?sp" and "b < length ?sp"
    then show "spec_w_ab self ! a ! b = spec_w_ab self ! b ! a"
      by (simp only: spec_w_ab_nth spec_two_body_sym [of _ _ a b])
  qed
  from run sq_ij sq_ab sym_ij sym_ab show ?thesis
    by blast
qed

theorem construct_square_symmetric_witness:
  "has_nonzero_term toy_operator
   \<and> (\<exists>tensor_paulis superpos_paulis w_ij w_ab.
      fst (construct record_log (toy_operator, [])) =
        Inr (tensor_paulis, superpos_paulis, w_ij, w_ab)
    \<and> length w_ij = length tensor_paulis
    \<and> (\<forall>row \<in> set w_ij. length row = length tensor_paulis)
    \<and> length w_ab = length superpos_paulis
    \<and> (\<forall>row \<in> set w_ab. length row = length superpos_paulis)
    \<and> (\<forall>i<length tensor_paulis. \<forall>j<length tensor_paulis. w_ij ! i ! j = w_ij ! j ! i)
    \<and> (\<forall>a<length superpos_paulis. \<forall>b<length superpos_paulis. w_ab ! a ! b = w_ab ! b ! a))"
proof -
  have h: "has_nonzero_term toy_operator"
    by (simp add: has_nonzero_term_def toy_operator_def cholesky_ops_def)
  from h construct_square_symmetric [OF h, of record_log "[]"] show ?thesis
    by (rule conjI)
qed

subsection \<open>C3: the check of the electron counts\<close>

text \<open>
  Against claim C3 as stated, which names the exception \<open>PreconditionError\<close>: the
  constructor checks the counts with \<^verbatim>\<open>assert\<close>, and for two alpha electrons and one
  beta electron it raises \<open>AssertionError\<close>.
\<close>

theorem init_open_shell_raises_AssertionError:
  "ForgedOperator_init toy_collaborators open_shell_molecule [] = Inl AssertionError
    \<and> exception_name AssertionError \<noteq> ''PreconditionError''"
  by (simp add: ForgedOperator_init_def toy_collaborators_def open_shell_molecule_def)

text \<open>
  Claim C3, amended. The check is the last statement of the constructor. When the calls
  before it return (the orbital selection and the Cholesky decomposition), construction
  succeeds if \<open>num_alpha = num_beta\<close>, and raises \<open>AssertionError\<close> otherwise. In any
  case construction fails when the counts differ.
\<close>

theorem init_checks_electron_counts:
  "(num_alpha qmol \<noteq> num_beta qmol \<longrightarrow>
      (\<exists>e. ForgedOperator_init ext qmol all_to_reduce = Inl e))
   \<and> (OrbitalsToReduce ext all_to_reduce qmol = Inr otr
      \<and> occupied ext otr = Inr occ \<and> virtual ext otr = Inr virt
      \<and> get_fermionic_ops_with_cholesky ext (mo_coeff qmol) (hcore qmol) (eri qmol)
            ''H'' True occ virt (1 / 10 ^ 10) = Inr (h_1, h_chol)
      \<longrightarrow> ForgedOperator_init ext qmol all_to_reduce =
          (if num_alpha qmol = num_beta qmol
           then Inr \<lparr> qmolecule = qmol, all_orbitals_to_reduce = all_to_reduce,
                      orbitals_to_reduce = otr, epsilon_cholesky = 1 / 10 ^ 10,
                      h_1_op = h_1, h_chol_ops = h_chol \<rparr>
           else Inl AssertionError))"
  by (auto simp: ForgedOperator_init_def split: sum.splits)

theorem init_checks_electron_counts_witness:
  "ForgedOperator_init toy_collaborators closed_shell_molecule [] = Inr toy_operator
   \<and> num_alpha open_shell_molecule \<noteq> num_beta open_shell_molecule
   \<and> ForgedOperator_init toy_collaborators open_shell_molecule [] = Inl AssertionError"
proof -
  have "ForgedOperator_init toy_collaborators closed_shell_molecule [] = Inr toy_operator"
    using init_checks_electron_counts [of closed_shell_molecule toy_collaborators "[]"
        "()" "[]" "[]" "[(''IIII'', 0), (''IIZI'', 3 / 10)]"
        "Some [[(''IIZI'', 1 / 2), (''IXXI'', 1 / 5)]]"]
    by (simp add: toy_collaborators_def closed_shell_molecule_def toy_operator_def)
  moreover have "ForgedOperator_init toy_collaborators open_shell_molecule [] = Inl AssertionError"
    using init_checks_electron_counts [of open_shell_molecule toy_collaborators "[]"
        "()" "[]" "[]" "[(''IIII'', 0), (''IIZI'', 3 / 10)]"
        "Some [[(''IIZI'', 1 / 2), (''IXXI'', 1 / 5)]]"]
    by (simp add: toy_collaborators_def open_shell_molecule_def)
  ultimately show ?thesis
    by (simp add: open_shell_molecule_def)
qed

subsection \<open>C4: the label lists\<close>

text \<open>
  Claim C4. For every input on \<open>n\<close> qubits some operator of which has a nonzero term, the
  list \<open>tensor_paulis\<close> contains the identity label, the string of \<open>n\<close> letters \<open>I\<close>, whether
  or not that label has a nonzero weight anywhere; every element of \<open>superpos_paulis\<close> is
  an element of \<open>tensor_paulis\<close>, which is at least as long; and the elements of
  \<open>superpos_paulis\<close> are exactly the labels that have a nonzero weight in some factor of
  \<^verbatim>\<open>h_chol_ops\<close>.
\<close>

theorem construct_label_lists:
  assumes "has_nonzero_term self" and "labels_have_length n self"
  shows "\<exists>tensor_paulis superpos_paulis w_ij w_ab.
      fst (construct Log_log (self, sink)) = Inr (tensor_paulis, superpos_paulis, w_ij, w_ab)
    \<and> replicate n CHR ''I'' \<in> set tensor_paulis
    \<and> set superpos_paulis \<subseteq> set tensor_paulis
    \<and> length superpos_paulis \<le> length tensor_paulis
    \<and> set superpos_paulis =
        {label. \<exists>ops op weight. h_chol_ops self = Some ops \<and> op \<in> set ops
           \<and> (label, weight) \<in> set op \<and> weight \<noteq> 0}"
proof -
  let ?tp = "sorted_list_of_set (spec_tensor_labels self)"
  let ?sp = "sorted_list_of_set (spec_superpos_labels self)"
  have run: "fst (construct Log_log (self, sink)) = Inr (?tp, ?sp, spec_w_ij self, spec_w_ab self)"
    using assms(1) by (simp add: construct_eq)
  have st: "set ?tp = spec_tensor_labels self" and ss: "set ?sp = spec_superpos_labels self"
    by (simp_all add: finite_spec_tensor_labels finite_spec_superpos_labels)
  have "spec_identity self \<in> spec_tensor_labels self"
    by (simp add: spec_tensor_labels_def)
  then have idt: "replicate n CHR ''I'' \<in> set ?tp"
    by (simp only: st spec_identity_eq [OF assms])
  have sub: "set ?sp \<subseteq> set ?tp"
    by (simp only: st ss spec_superpos_subset_tensor)
  have "card (spec_superpos_labels self) \<le> card (spec_tensor_labels self)"
    using finite_spec_tensor_labels spec_superpos_subset_tensor by (rule card_mono)
  then have len: "length ?sp \<le> length ?tp"
    by simp
  have "set ?sp = {label. \<exists>op \<in> set (cholesky_ops self).
           \<exists>weight. (label, weight) \<in> set op \<and> weight \<noteq> 0}"
    unfolding ss by (rule spec_superpos_labels_eq)
  also have "\<dots> = {label. \<exists>ops op weight. h_chol_ops self = Some ops \<and> op \<in> set ops
           \<and> (label, weight) \<in> set op \<and> weight \<noteq> 0}"
    by (cases "h_chol_ops self") (auto simp: cholesky_ops_def)
  finally have exact: "set ?sp = {label. \<exists>ops op weight. h_chol_ops self = Some ops
      \<and> op \<in> set ops \<and> (label, weight) \<in> set op \<and> weight \<noteq> 0}" .
  from run idt sub len exact show ?thesis
    by blast
qed

theorem construct_label_lists_witness:
  "has_nonzero_term toy_operator \<and> labels_have_length 4 toy_operator
   \<and> (\<exists>tensor_paulis superpos_paulis w_ij w_ab.
      fst (construct record_log (toy_operator, [])) =
        Inr (tensor_paulis, superpos_paulis, w_ij, w_ab)
    \<and> ''IIII'' \<in> set tensor_paulis
    \<and> set superpos_paulis \<subseteq> set tensor_paulis
    \<and> length superpos_paulis \<le> length tensor_paulis
    \<and> set superpos_paulis = {''IIZI'', ''IXXI''})"
proof -
  have h: "has_nonzero_term toy_operator"
    by (simp add: has_nonzero_term_def toy_operator_def cholesky_ops_def)
  have l: "labels_have_length 4 toy_operator"
    by (simp add: labels_have_length_def toy_operator_def cholesky_ops_def)
  have i: "replicate 4 CHR ''I'' = ''IIII''"
    by (simp add: numeral_eq_Suc)
  have f: "{label. \<exists>ops op weight. h_chol_ops toy_operator = Some ops \<and> op \<in> set ops
           \<and> (label, weight) \<in> set op \<and> weight \<noteq> 0} = {''IIZI'', ''IXXI''}"
  proof (rule set_eqI)
    fix label
    have "(\<exists>ops op weight. h_chol_ops toy_operator = Some ops \<and> op \<in> set ops
           \<and> (label, weight) \<in> set op \<and> weight \<noteq> 0)
        \<longleftrightarrow> (\<exists>weight. (label, weight) \<in> {(''IIZI'', 1 / 2), (''IXXI'', 1 / 5)}
             \<and> weight \<noteq> (0::complex))"
      by (simp add: toy_operator_def)
    also have "\<dots> \<longleftrightarrow> label \<in> {''IIZI'', ''IXXI''}"
      by (auto intro: exI [of _ "1 / 2"] exI [of _ "1 / 5"])
    finally show "label \<in> {label. \<exists>ops op weight. h_chol_ops toy_operator = Some ops
           \<and> op \<in> set ops \<and> (label, weight) \<in> set op \<and> weight \<noteq> 0}
        \<longleftrightarrow> label \<in> {''IIZI'', ''IXXI''}"
      by simp
  qed
  from h l construct_label_lists [OF h l, of record_log "[]", unfolded i f] show ?thesis
    by (intro conjI)
qed

subsection \<open>C5: the one-body contribution\<close>



subsection \<open>C6: the two-body contribution\<close>



subsection \<open>C7: no nonzero term anywhere\<close>

text \<open>
  Against claim C7 as stated, which names the exception \<open>EmptyOperatorError\<close>: for an
  operator whose terms all have weight zero the method raises \<open>IndexError\<close>, from
  \<^verbatim>\<open>pnames[0]\<close> on an empty list, before anything is logged.
\<close>

theorem construct_empty_operator_raises_IndexError:
  "construct record_log (empty_operator, []) = (Inl IndexError, empty_operator, [])
    \<and> exception_name IndexError \<noteq> ''EmptyOperatorError''"
  unfolding empty_operator_def closed_shell_molecule_def by code_simp

text \<open>
  Claim C7, amended. If neither the one-body operator nor any factor has a term of
  nonzero weight, \<^verbatim>\<open>construct\<close> raises \<open>IndexError\<close>; the instance and the logging sink
  are left as they were.
\<close>

theorem construct_without_nonzero_term:
  "\<not> has_nonzero_term self \<Longrightarrow> construct Log_log (self, sink) = (Inl IndexError, self, sink)"
  by (simp add: construct_eq)

theorem construct_without_nonzero_term_witness:
  "\<not> has_nonzero_term empty_operator
   \<and> construct record_log (empty_operator, [(''earlier record'', 0)])
       = (Inl IndexError, empty_operator, [(''earlier record'', 0)])"
proof -
  have h: "\<not> has_nonzero_term empty_operator"
    by (simp add: has_nonzero_term_def empty_operator_def cholesky_ops_def)
  from construct_without_nonzero_term [OF h] h show ?thesis
    by simp
qed

subsection \<open>C8: no effect but the two log records\<close>

text \<open>
  Claim C8. \<^verbatim>\<open>construct\<close> leaves the instance as it was; its only effect is on the logging
  sink, none when it raises and otherwise the two calls of \<^verbatim>\<open>Log.log\<close> with the sizes of
  the two label sets, the tensor set first; and a second call, on the state the first call
  left, returns what the first call returned.
\<close>

theorem construct_only_logs:
  "fst (snd (construct Log_log (self, sink))) = self
   \<and> snd (snd (construct Log_log (self, sink))) =
       (case fst (construct Log_log (self, sink)) of
          Inl e \<Rightarrow> sink
        | Inr (tensor_paulis, superpos_paulis, w_ij, w_ab) \<Rightarrow>
            Log_log ''num paulis for superpos states:'' (length superpos_paulis)
              (Log_log ''num paulis for tensor states:'' (length tensor_paulis) sink))
   \<and> fst (construct Log_log (snd (construct Log_log (self, sink))))
       = fst (construct Log_log (self, sink))"
  by (simp add: construct_eq)

subsection \<open>C9: sorted label lists that do not depend on the order of the terms\<close>

text \<open>
  Claim C9. For every input on \<open>n\<close> qubits some operator of which has a nonzero term, the
  two label lists that \<^verbatim>\<open>construct\<close> returns are sorted in the lexicographic order of
  strings and have no duplicates; and an input that has the same terms, operator by
  operator, in whatever order each operator lists them, gives the same two lists.
\<close>

theorem construct_labels_sorted_order_independent:
  assumes "has_nonzero_term self" and "labels_have_length n self"
    and "set (h_1_op self') = set (h_1_op self)"
    and "map set (cholesky_ops self') = map set (cholesky_ops self)"
  shows "\<exists>tensor_paulis superpos_paulis w_ij w_ab w_ij' w_ab'.
      fst (construct Log_log (self, sink)) = Inr (tensor_paulis, superpos_paulis, w_ij, w_ab)
    \<and> fst (construct Log_log' (self', sink')) =
        Inr (tensor_paulis, superpos_paulis, w_ij', w_ab')
    \<and> sorted tensor_paulis \<and> distinct tensor_paulis
    \<and> sorted superpos_paulis \<and> distinct superpos_paulis"
proof -
  let ?tp = "sorted_list_of_set (spec_tensor_labels self)"
  let ?sp = "sorted_list_of_set (spec_superpos_labels self)"
  have run: "fst (construct Log_log (self, sink)) = Inr (?tp, ?sp, spec_w_ij self, spec_w_ab self)"
    using assms(1) by (simp add: construct_eq)
  have nz': "has_nonzero_term self'"
    using assms(1) by (simp only: same_terms_has_nonzero_term [OF assms(3,4)])
  have len': "labels_have_length n self'"
    using assms(2) by (simp only: same_terms_labels_have_length [OF assms(3,4)])
  have "spec_identity self' = spec_identity self"
    by (simp only: spec_identity_eq [OF nz' len'] spec_identity_eq [OF assms(1,2)])
  then have t: "spec_tensor_labels self' = spec_tensor_labels self"
    by (rule same_terms_tensor_labels [OF assms(3,4)])
  have s: "spec_superpos_labels self' = spec_superpos_labels self"
    using assms(4) by (rule same_terms_superpos_labels)
  have run': "fst (construct Log_log' (self', sink')) =
      Inr (?tp, ?sp, spec_w_ij self', spec_w_ab self')"
    using nz' by (simp add: construct_eq t s)
  have "sorted ?tp" and "distinct ?tp" and "sorted ?sp" and "distinct ?sp"
    by simp_all
  with run run' show ?thesis
    by blast
qed

theorem construct_labels_sorted_order_independent_witness:
  "has_nonzero_term toy_operator \<and> labels_have_length 4 toy_operator
   \<and> set (h_1_op toy_operator_reordered) = set (h_1_op toy_operator)
   \<and> map set (cholesky_ops toy_operator_reordered) = map set (cholesky_ops toy_operator)
   \<and> (\<exists>tensor_paulis superpos_paulis w_ij w_ab w_ij' w_ab'.
      fst (construct record_log (toy_operator, [])) =
        Inr (tensor_paulis, superpos_paulis, w_ij, w_ab)
    \<and> fst (construct record_log (toy_operator_reordered, [])) =
        Inr (tensor_paulis, superpos_paulis, w_ij', w_ab')
    \<and> sorted tensor_paulis \<and> distinct tensor_paulis
    \<and> sorted superpos_paulis \<and> distinct superpos_paulis)"
proof -
  have h: "has_nonzero_term toy_operator"
    by (simp add: has_nonzero_term_def toy_operator_def cholesky_ops_def)
  have l: "labels_have_length 4 toy_operator"
    by (simp add: labels_have_length_def toy_operator_def cholesky_ops_def)
  have o: "set (h_1_op toy_operator_reordered) = set (h_1_op toy_operator)"
    by (auto simp: toy_operator_reordered_def toy_operator_def)
  have c: "map set (cholesky_ops toy_operator_reordered) = map set (cholesky_ops toy_operator)"
    by (auto simp: toy_operator_reordered_def toy_operator_def cholesky_ops_def)
  from h l o c
    construct_labels_sorted_order_independent [OF h l o c, of record_log "[]" record_log "[]"]
  show ?thesis
    by (intro conjI)
qed

subsection \<open>C10: no factor with a nonzero term\<close>

text \<open>
  Claim C10. If the one-body operator has a term of nonzero weight, and there is no
  factor (\<^verbatim>\<open>h_chol_ops\<close> is \<^verbatim>\<open>None\<close> or empty) or no factor has a term of nonzero weight,
  then \<^verbatim>\<open>construct\<close> returns, \<open>superpos_paulis\<close> is the empty list, \<open>w_ab\<close> is the matrix
  without rows, and every nonzero entry of \<open>w_ij\<close> lies in the row or in the column of the
  identity label. The operators act on \<open>n\<close> qubits.
\<close>

theorem construct_without_factors:
  assumes "\<exists>(label, weight) \<in> set (h_1_op self). weight \<noteq> 0"
    and "\<forall>op \<in> set (cholesky_ops self). \<forall>(label, weight) \<in> set op. weight = 0"
    and "labels_have_length n self"
  shows "\<exists>tensor_paulis w_ij.
      fst (construct Log_log (self, sink)) = Inr (tensor_paulis, [], w_ij, [])
    \<and> (\<forall>a<length tensor_paulis. \<forall>b<length tensor_paulis.
          w_ij ! a ! b \<noteq> 0 \<longrightarrow>
            tensor_paulis ! a = replicate n CHR ''I'' \<or> tensor_paulis ! b = replicate n CHR ''I'')"
proof -
  let ?tp = "sorted_list_of_set (spec_tensor_labels self)"
  from assms(1) have nz: "has_nonzero_term self"
    by (simp add: has_nonzero_term_def)
  from assms(2) have "\<forall>op \<in> set (cholesky_ops self). nonzero_terms op = []"
    by (simp only: nonzero_terms_eq_Nil)
  then have tl: "tl (paulis_each_op self) = []"
    by (simp add: tl_paulis_each_op filter_empty_conv)
  then have sp: "spec_superpos_labels self = {}"
    by (simp add: spec_superpos_labels_def)
  then have ab: "spec_w_ab self = []"
    by (simp add: spec_w_ab_def)
  have run: "fst (construct Log_log (self, sink)) = Inr (?tp, [], spec_w_ij self, [])"
    using nz by (simp add: construct_eq sp ab)
  have "\<forall>a<length ?tp. \<forall>b<length ?tp.
          spec_w_ij self ! a ! b \<noteq> 0 \<longrightarrow>
            ?tp ! a = replicate n CHR ''I'' \<or> ?tp ! b = replicate n CHR ''I''"
  proof (intro allI impI)
    fix a b
    assume a: "a < length ?tp" and b: "b < length ?tp"
      and entry: "spec_w_ij self ! a ! b \<noteq> 0"
    show "?tp ! a = replicate n CHR ''I'' \<or> ?tp ! b = replicate n CHR ''I''"
    proof (rule ccontr)
      assume "\<not> (?tp ! a = replicate n CHR ''I'' \<or> ?tp ! b = replicate n CHR ''I'')"
      then have "?tp ! a \<noteq> spec_identity self" and "?tp ! b \<noteq> spec_identity self"
        by (simp_all only: spec_identity_eq [OF nz assms(3)] de_Morgan_disj not_False_eq_True)
      then have "spec_one_body ?tp (spec_identity self) (hd (paulis_each_op self)) a b = 0"
        by (rule spec_one_body_off_identity)
      with a b have "spec_w_ij self ! a ! b = 0"
        by (simp add: spec_w_ij_nth tl spec_two_body_Nil)
      with entry show False
        by contradiction
    qed
  qed
  with run show ?thesis
    by blast
qed

theorem construct_without_factors_witness:
  "(\<exists>(label, weight) \<in> set (h_1_op one_body_only_operator). weight \<noteq> 0)
   \<and> cholesky_ops one_body_only_operator = []
   \<and> cholesky_ops zero_factor_operator = [[(''ZZZZ'', 0)]]
   \<and> labels_have_length 4 one_body_only_operator
   \<and> (\<exists>tensor_paulis w_ij.
      fst (construct record_log (one_body_only_operator, [])) = Inr (tensor_paulis, [], w_ij, [])
    \<and> (\<forall>a<length tensor_paulis. \<forall>b<length tensor_paulis.
          w_ij ! a ! b \<noteq> 0 \<longrightarrow>
            tensor_paulis ! a = replicate 4 CHR ''I'' \<or> tensor_paulis ! b = replicate 4 CHR ''I''))
   \<and> (\<exists>tensor_paulis w_ij.
      fst (construct record_log (zero_factor_operator, [])) = Inr (tensor_paulis, [], w_ij, [])
    \<and> (\<forall>a<length tensor_paulis. \<forall>b<length tensor_paulis.
          w_ij ! a ! b \<noteq> 0 \<longrightarrow>
            tensor_paulis ! a = replicate 4 CHR ''I'' \<or> tensor_paulis ! b = replicate 4 CHR ''I''))"
proof -
  have o1: "\<exists>(label, weight) \<in> set (h_1_op one_body_only_operator). weight \<noteq> 0"
    by (simp add: one_body_only_operator_def)
  have n1: "\<forall>op \<in> set (cholesky_ops one_body_only_operator).
      \<forall>(label, weight) \<in> set op. weight = 0"
    by (simp add: one_body_only_operator_def cholesky_ops_def)
  have l1: "labels_have_length 4 one_body_only_operator"
    by (simp add: labels_have_length_def one_body_only_operator_def cholesky_ops_def)
  have o2: "\<exists>(label, weight) \<in> set (h_1_op zero_factor_operator). weight \<noteq> 0"
    by (simp add: zero_factor_operator_def)
  have n2: "\<forall>op \<in> set (cholesky_ops zero_factor_operator).
      \<forall>(label, weight) \<in> set op. weight = 0"
    by (simp add: zero_factor_operator_def cholesky_ops_def)
  have l2: "labels_have_length 4 zero_factor_operator"
    by (simp add: labels_have_length_def zero_factor_operator_def cholesky_ops_def)
  have c1: "cholesky_ops one_body_only_operator = []"
    by (simp add: one_body_only_operator_def cholesky_ops_def)
  have c2: "cholesky_ops zero_factor_operator = [[(''ZZZZ'', 0)]]"
    by (simp add: zero_factor_operator_def cholesky_ops_def)
  from o1 c1 c2 l1
    construct_without_factors [OF o1 n1 l1, of record_log "[]"]
    construct_without_factors [OF o2 n2 l2, of record_log "[]"]
  show ?thesis
    by (intro conjI)
qed

end
